theory Spec2Isabelle
  imports Complex_Main "HOL-Library.Multiset" "HOL-Library.Option_ord"
begin

section \<open>Tables and floating-point cells\<close>

text \<open>
  The module \<^verbatim>\<open>pypfopt/expected_returns.py\<close> works on pandas data frames of floats.
  A cell is a real number or missing: \<open>None\<close> stands for NaN, and also for every float
  result that is no real number (a division by zero, the logarithm of a non-positive
  number). Finite floats are idealised as reals, so rounding is not part of the model.
\<close>

type_synonym cell = "real option"

text \<open>A pandas \<^verbatim>\<open>DataFrame\<close>: the index (one date label per row), the column
  labels, and the rows, each with one cell per column.\<close>

record frame =
  index :: "real list"
  columns :: "string list"
  rows :: "cell list list"

text \<open>A pandas \<^verbatim>\<open>Series\<close> indexed by column labels, as the estimators return it.\<close>

type_synonym series = "(string \<times> cell) list"

text \<open>A Python exception: its class name and its message.\<close>

datatype exn = Raise string string

text \<open>A word between single quotes, as Python messages show names.\<close>

definition quoted :: "string \<Rightarrow> string" where
  "quoted s = CHR 0x27 # s @ [CHR 0x27]"

definition fdiv :: "real \<Rightarrow> real \<Rightarrow> cell" where
  "fdiv x y = (if y = 0 then None else Some (x / y))"

definition flog :: "real \<Rightarrow> cell" where
  "flog x = (if 0 < x then Some (ln x) else None)"

text \<open>Float power \<^verbatim>\<open>x ** y\<close> on finite arguments: a negative base has a real power
  only for an integral exponent, and zero to a negative power is infinite.\<close>

definition fpow :: "real \<Rightarrow> real \<Rightarrow> cell" where
  "fpow x y =
     (if 0 < x then Some (x powr y)
      else if x = 0 then (if 0 < y then Some 0 else if y = 0 then Some 1 else None)
      else if y = of_int \<lfloor>y\<rfloor> then Some (x powi \<lfloor>y\<rfloor>)
      else None)"

text \<open>Cell division \<^verbatim>\<open>/\<close> of two tables' cells.\<close>

definition cdiv :: "cell \<Rightarrow> cell \<Rightarrow> cell" where
  "cdiv c b = (case (c, b) of (Some x, Some y) \<Rightarrow> fdiv x y | _ \<Rightarrow> None)"

definition map_cells :: "(cell \<Rightarrow> cell) \<Rightarrow> frame \<Rightarrow> frame" where
  "map_cells f df = df\<lparr>rows := map (map f) (rows df)\<rparr>"

definition col_values :: "frame \<Rightarrow> nat \<Rightarrow> cell list" where
  "col_values df j = map (\<lambda>r. r ! j) (rows df)"

text \<open>The observed (non-NaN) values of a column: pandas reductions skip NaN.\<close>

definition observed :: "cell list \<Rightarrow> real list" where
  "observed xs = List.map_filter id xs"

section \<open>Return transform\<close>

subsection \<open>pandas operations used by the transform\<close>

text \<open>\<^verbatim>\<open>DataFrame.shift(1)\<close>: every row moves down by one, the first row is NaN.\<close>

definition shift_rows :: "cell list list \<Rightarrow> cell list list" where
  "shift_rows rs = (case rs of [] \<Rightarrow> [] | r # _ \<Rightarrow> map (\<lambda>_. None) r # butlast rs)"

text \<open>\<^verbatim>\<open>DataFrame.pct_change()\<close> is \<^verbatim>\<open>data / data.shift(1) - 1\<close> cell by cell;
  a missing operand gives a missing result.\<close>

definition pct :: "cell \<Rightarrow> cell \<Rightarrow> cell" where
  "pct cur prev =
     (case (cur, prev) of
        (Some p, Some q) \<Rightarrow> map_option (\<lambda>x. x - 1) (fdiv p q)
      | _ \<Rightarrow> None)"

definition pct_change :: "frame \<Rightarrow> frame" where
  "pct_change df = df\<lparr>rows := map2 (map2 pct) (rows df) (shift_rows (rows df))\<rparr>"

text \<open>\<^verbatim>\<open>DataFrame.dropna(how="all")\<close>: a row is kept when it has an observed cell.\<close>

definition dropna_all :: "frame \<Rightarrow> frame" where
  "dropna_all df =
     (let keep = filter (\<lambda>(d, r). \<exists>c \<in> set r. c \<noteq> None) (zip (index df) (rows df))
      in df\<lparr>index := map fst keep, rows := map snd keep\<rparr>)"

text \<open>\<^verbatim>\<open>np.log(1 + x)\<close> on a cell.\<close>

definition log1p_cell :: "cell \<Rightarrow> cell" where
  "log1p_cell c = Option.bind c (\<lambda>v. flog (1 + v))"

text \<open>\<^verbatim>\<open>DataFrame.cumprod()\<close>: the running product down each column; a NaN cell
  stays NaN and leaves the running product as it is. The accumulator holds the
  running product of every column.\<close>

fun cumprod_rows :: "real list \<Rightarrow> cell list list \<Rightarrow> cell list list" where
  "cumprod_rows acc [] = []"
| "cumprod_rows acc (r # rs) =
     (let acc' = map2 (\<lambda>a c. case c of None \<Rightarrow> a | Some v \<Rightarrow> a * v) acc r
      in map2 (\<lambda>a c. map_option (\<lambda>_. a) c) acc' r # cumprod_rows acc' rs)"

definition cumprod :: "frame \<Rightarrow> frame" where
  "cumprod df = df\<lparr>rows := cumprod_rows (replicate (length (columns df)) 1) (rows df)\<rparr>"

subsection \<open>Spark tables\<close>

text \<open>A Spark \<^verbatim>\<open>DataFrame\<close>: the column names and the rows, each row a record from
  column name to value (a double or null; the timestamp of \<^verbatim>\<open>date_index\<close> is a number
  as well).\<close>

record sframe =
  scolumns :: "string list"
  srows :: "(string \<rightharpoonup> cell) list"

text \<open>The value of a column in a row; an absent column reads as null.\<close>

definition sget :: "(string \<rightharpoonup> cell) \<Rightarrow> string \<Rightarrow> cell" where
  "sget r c = (case r c of Some v \<Rightarrow> v | None \<Rightarrow> None)"

text \<open>\<^verbatim>\<open>withColumn(name, values)\<close> replaces the column of that name or appends it.\<close>

definition withColumn :: "string \<Rightarrow> cell list \<Rightarrow> sframe \<Rightarrow> sframe" where
  "withColumn name vs sdf =
     \<lparr>scolumns = (if name \<in> set (scolumns sdf) then scolumns sdf else scolumns sdf @ [name]),
      srows = map2 (\<lambda>r v. r(name \<mapsto> v)) (srows sdf) vs\<rparr>"

definition drop_col :: "string \<Rightarrow> sframe \<Rightarrow> sframe" where
  "drop_col name sdf =
     \<lparr>scolumns = filter (\<lambda>c. c \<noteq> name) (scolumns sdf),
      srows = map (\<lambda>r. r(name := None)) (srows sdf)\<rparr>"

text \<open>\<^verbatim>\<open>Window.orderBy("date_index")\<close>: one partition sorted by ascending date,
  nulls first.\<close>

definition order_by_date :: "sframe \<Rightarrow> sframe" where
  "order_by_date sdf = sdf\<lparr>srows := sort_key (\<lambda>r. sget r ''date_index'') (srows sdf)\<rparr>"

text \<open>\<^verbatim>\<open>F.lag(col)\<close> over the ordered window: the value of the previous row, null for
  the first.\<close>

definition lag :: "cell list \<Rightarrow> cell list" where
  "lag vs = (case vs of [] \<Rightarrow> [] | _ # _ \<Rightarrow> None # butlast vs)"

text \<open>The Spark column expression \<^verbatim>\<open>(col - lag) / lag\<close>: null operands and a zero
  divisor give null.\<close>

definition spark_ret :: "cell \<Rightarrow> cell \<Rightarrow> cell" where
  "spark_ret cur prev =
     (case (cur, prev) of
        (Some p, Some q) \<Rightarrow> fdiv (p - q) q
      | _ \<Rightarrow> None)"

text \<open>One round of the loop over the price columns (lines 61-65 and 71-74).\<close>

definition spark_step :: "bool \<Rightarrow> sframe \<Rightarrow> string \<Rightarrow> sframe" where
  "spark_step log_returns prices col =
     (let s1 = order_by_date prices;
          s2 = withColumn ''tmp_lag_1'' (lag (map (\<lambda>r. sget r col) (srows s1))) s1;
          s3 = withColumn col
                 (map (\<lambda>r. spark_ret (sget r col) (sget r ''tmp_lag_1'')) (srows s2)) s2;
          s4 = drop_col ''tmp_lag_1'' s3
      in if log_returns
         then withColumn col (map (\<lambda>r. log1p_cell (sget r col)) (srows s4)) s4
         else s4)"

subsection \<open>returns_from_prices and prices_from_returns\<close>

datatype table = Pandas frame | Spark sframe

text \<open>The two pandas branches (lines 52-55).\<close>

definition returns_from_prices_pd :: "frame \<Rightarrow> bool \<Rightarrow> frame" where
  "returns_from_prices_pd prices log_returns =
     (if log_returns then dropna_all (map_cells log1p_cell (pct_change prices))
      else dropna_all (pct_change prices))"

text \<open>The two Spark branches (lines 57-75); \<^verbatim>\<open>list.remove\<close> takes out the first
  \<^verbatim>\<open>date_index\<close>.\<close>

definition returns_from_prices_spark :: "sframe \<Rightarrow> bool \<Rightarrow> sframe" where
  "returns_from_prices_spark prices log_returns =
     (let price_cols = remove1 ''date_index'' (scolumns prices)
      in foldl (spark_step log_returns) prices price_cols)"

text \<open>\<^verbatim>\<open>returns_from_prices(prices, log_returns, is_spark)\<close>. Without \<^verbatim>\<open>is_spark\<close> the
  pandas methods are called on the argument, which a Spark table does not have.\<close>

definition returns_from_prices :: "table \<Rightarrow> bool \<Rightarrow> bool \<Rightarrow> exn + table" where
  "returns_from_prices prices log_returns is_spark =
     (case (is_spark, prices) of
        (True, Pandas df) \<Rightarrow>
          Inl (Raise ''RuntimeError''
                 ''Loading a non-spark dataframe to a spark session is not supported!'')
      | (True, Spark sdf) \<Rightarrow>
          if ''date_index'' \<notin> set (scolumns sdf)
          then Inl (Raise ''RuntimeError''
                 (''Loading a spark dataframe without a '' @ quoted ''date_index'' @
                  '' column is not supported!''))
          else Inr (Spark (returns_from_prices_spark sdf log_returns))
      | (False, Pandas df) \<Rightarrow> Inr (Pandas (returns_from_prices_pd df log_returns))
      | (False, Spark sdf) \<Rightarrow>
          Inl (Raise ''AttributeError''
                 (quoted ''DataFrame'' @ '' object has no attribute '' @ quoted ''pct_change'')))"

text \<open>\<^verbatim>\<open>prices_from_returns(returns, log_returns)\<close>. The assignment
  \<^verbatim>\<open>ret.iloc[0] = 1\<close> overwrites the first row of the fresh table \<^verbatim>\<open>ret\<close> and raises
  on a table without rows.\<close>

definition prices_from_returns :: "frame \<Rightarrow> bool \<Rightarrow> exn + frame" where
  "prices_from_returns returns log_returns =
     (let ret = (if log_returns then map_cells (map_option exp) returns
                 else map_cells (map_option (\<lambda>v. 1 + v)) returns)
      in case rows ret of
           [] \<Rightarrow> Inl (Raise ''IndexError'' ''iloc cannot enlarge its target object'')
         | r # rs \<Rightarrow> Inr (cumprod (ret\<lparr>rows := map (\<lambda>_. Some 1) r # rs\<rparr>)))"

section \<open>Estimators\<close>

subsection \<open>Column reductions\<close>

text \<open>A reduction of every column to one value, labelled by the column.\<close>

definition reduce_cols :: "(cell list \<Rightarrow> cell) \<Rightarrow> frame \<Rightarrow> series" where
  "reduce_cols f df =
     map (\<lambda>j. (columns df ! j, f (col_values df j))) [0..<length (columns df)]"

text \<open>\<^verbatim>\<open>(1 + col).prod() ** (frequency / col.count()) - 1\<close>: product and count skip
  NaN. A column without observations has product 1.0, and \<^verbatim>\<open>1.0 ** e\<close> is 1.0 for
  every exponent, also the infinite or NaN quotient by the count 0.\<close>

definition compound_col :: "int \<Rightarrow> cell list \<Rightarrow> cell" where
  "compound_col frequency xs =
     (let obs = observed xs;
          n = length obs;
          p = prod_list (map (\<lambda>r. 1 + r) obs)
      in if n = 0 then Some 0
         else map_option (\<lambda>y. y - 1) (fpow p (of_int frequency / of_nat n)))"

text \<open>\<^verbatim>\<open>col.mean()\<close>: the mean of the observed values, NaN when there is none.\<close>

definition mean_col :: "cell list \<Rightarrow> cell" where
  "mean_col xs =
     (let obs = observed xs
      in if obs = [] then None else Some (sum_list obs / of_nat (length obs)))"

text \<open>\<^verbatim>\<open>col.mean() * frequency\<close>.\<close>

definition arith_col :: "int \<Rightarrow> cell list \<Rightarrow> cell" where
  "arith_col frequency xs = map_option (\<lambda>m. m * of_int frequency) (mean_col xs)"

subsection \<open>mean_historical_return\<close>

text \<open>\<^verbatim>\<open>mean_historical_return(prices, returns_data, compounding, frequency)\<close> on a
  data frame (lines 153-160).\<close>

definition mean_historical_return :: "frame \<Rightarrow> bool \<Rightarrow> bool \<Rightarrow> int \<Rightarrow> series" where
  "mean_historical_return prices returns_data compounding frequency =
     (let returns = (if returns_data then prices else returns_from_prices_pd prices False)
      in if compounding then reduce_cols (compound_col frequency) returns
         else reduce_cols (arith_col frequency) returns)"

subsection \<open>ema_historical_return\<close>

text \<open>\<^verbatim>\<open>Series.ewm(span=span).mean()\<close> with the defaults \<^verbatim>\<open>adjust=True\<close> and
  \<^verbatim>\<open>ignore_na=False\<close>, as pandas computes it: one pass that carries the weighted
  average so far and the sum of the weights. A NaN observation ages the weights and
  repeats the average; before the first observation the average is NaN.\<close>

fun ewm_scan :: "real \<Rightarrow> cell \<Rightarrow> real \<Rightarrow> cell list \<Rightarrow> cell list" where
  "ewm_scan \<alpha> weighted old_wt [] = []"
| "ewm_scan \<alpha> weighted old_wt (cur # xs) =
     (case weighted of
        None \<Rightarrow> cur # ewm_scan \<alpha> cur old_wt xs
      | Some w \<Rightarrow>
          (let ow = old_wt * (1 - \<alpha>)
           in case cur of
                None \<Rightarrow> Some w # ewm_scan \<alpha> (Some w) ow xs
              | Some x \<Rightarrow>
                  (let w' = (if w \<noteq> x then (ow * w + x) / (ow + 1) else w)
                   in Some w' # ewm_scan \<alpha> (Some w') (ow + 1) xs)))"

definition ewm_mean :: "real \<Rightarrow> cell list \<Rightarrow> cell list" where
  "ewm_mean \<alpha> xs = (case xs of [] \<Rightarrow> [] | x # xs' \<Rightarrow> x # ewm_scan \<alpha> x 1 xs')"

text \<open>\<^verbatim>\<open>(1 + v) ** frequency - 1\<close> and \<^verbatim>\<open>v * frequency\<close> on the last average of a
  column.\<close>

definition ema_compound :: "int \<Rightarrow> cell \<Rightarrow> cell" where
  "ema_compound frequency v =
     Option.bind v (\<lambda>m. map_option (\<lambda>y. y - 1) (fpow (1 + m) (of_int frequency)))"

definition ema_arith :: "int \<Rightarrow> cell \<Rightarrow> cell" where
  "ema_arith frequency v = map_option (\<lambda>m. m * of_int frequency) v"

text \<open>\<^verbatim>\<open>ema_historical_return(prices, returns_data, compounding, span, frequency)\<close>
  on a data frame (lines 190-198), \<open>spn\<close> being the span. \<^verbatim>\<open>ewm\<close> refuses a span below 1, and \<^verbatim>\<open>iloc[-1]\<close>
  a table without rows.\<close>

definition ema_historical_return ::
  "frame \<Rightarrow> bool \<Rightarrow> bool \<Rightarrow> int \<Rightarrow> int \<Rightarrow> exn + series" where
  "ema_historical_return prices returns_data compounding spn frequency =
     (let returns = (if returns_data then prices else returns_from_prices_pd prices False)
      in if spn < 1 then Inl (Raise ''ValueError'' ''span must satisfy: span >= 1'')
         else if rows returns = []
         then Inl (Raise ''IndexError'' ''single positional indexer is out-of-bounds'')
         else let \<alpha> = 2 / (of_int spn + 1)
              in if compounding
                 then Inr (reduce_cols (\<lambda>xs. ema_compound frequency (last (ewm_mean \<alpha> xs))) returns)
                 else Inr (reduce_cols (\<lambda>xs. ema_arith frequency (last (ewm_mean \<alpha> xs))) returns))"

subsection \<open>capm_return\<close>

text \<open>Python objects live in a store: an address names a data frame, two names of one
  address are aliases, and \<open>nxt\<close> is the next free address.\<close>

type_synonym addr = nat

record heap =
  objs :: "addr \<Rightarrow> frame"
  nxt :: addr

definition alloc :: "frame \<Rightarrow> heap \<Rightarrow> addr \<times> heap" where
  "alloc f h = (nxt h, h\<lparr>objs := (objs h)(nxt h := f), nxt := Suc (nxt h)\<rparr>)"

definition store :: "addr \<Rightarrow> frame \<Rightarrow> heap \<Rightarrow> heap" where
  "store a f h = h\<lparr>objs := (objs h)(a := f)\<rparr>"

text \<open>\<^verbatim>\<open>returns.mean(axis=1)\<close>: the mean of the observed cells of every row.\<close>

definition row_means :: "frame \<Rightarrow> cell list" where
  "row_means df = map mean_col (rows df)"

text \<open>\<^verbatim>\<open>df[name] = values\<close>: every column of that label is overwritten; without one the
  column is appended on the right.\<close>

definition set_column :: "string \<Rightarrow> cell list \<Rightarrow> frame \<Rightarrow> frame" where
  "set_column name vs df =
     (if name \<in> set (columns df)
      then df\<lparr>rows := map2 (\<lambda>r v. map2 (\<lambda>c x. if c = name then v else x) (columns df) r)
                         (rows df) vs\<rparr>
      else df\<lparr>columns := columns df @ [name], rows := map2 (\<lambda>r v. r @ [v]) (rows df) vs\<rparr>)"

text \<open>\<^verbatim>\<open>left.join(right, how="left")\<close> on the index: every left row, once for each
  right row of its date, or once with NaN when there is none.\<close>

definition join_left :: "frame \<Rightarrow> frame \<Rightarrow> exn + frame" where
  "join_left l r =
     (if \<exists>c \<in> set (columns l). c \<in> set (columns r)
      then Inl (Raise ''ValueError'' ''columns overlap but no suffix specified'')
      else let matched =
                 concat (map2 (\<lambda>d row.
                    let ms = map snd (filter (\<lambda>(md, mr). md = d) (zip (index r) (rows r)))
                    in if ms = [] then [(d, row @ replicate (length (columns r)) None)]
                       else map (\<lambda>mr. (d, row @ mr)) ms)
                  (index l) (rows l))
           in Inr \<lparr>index = map fst matched, columns = columns l @ columns r,
                   rows = map snd matched\<rparr>)"

text \<open>One entry of \<^verbatim>\<open>DataFrame.cov()\<close>: the sample covariance (\<^verbatim>\<open>ddof=1\<close>) of two columns
  over the rows where both are observed; NaN with fewer than two such rows.\<close>

definition cov_cells :: "cell list \<Rightarrow> cell list \<Rightarrow> cell" where
  "cov_cells xs ys =
     (let ps = List.map_filter
                 (\<lambda>(x, y). case (x, y) of (Some a, Some b) \<Rightarrow> Some (a, b) | _ \<Rightarrow> None)
                 (zip xs ys);
          n = length ps
      in if n < 2 then None
         else let mx = sum_list (map fst ps) / of_nat n;
                  my = sum_list (map snd ps) / of_nat n
              in Some (sum_list (map (\<lambda>(a, b). (a - mx) * (b - my)) ps) / (of_nat n - 1)))"

text \<open>\<^verbatim>\<open>returns.cov()\<close>: row \<open>i\<close>, column \<open>j\<close> is the covariance of columns \<open>i\<close> and
  \<open>j\<close>.\<close>

definition cov_matrix :: "frame \<Rightarrow> cell list list" where
  "cov_matrix df =
     map (\<lambda>i. map (\<lambda>j. cov_cells (col_values df i) (col_values df j))
                 [0..<length (columns df)])
         [0..<length (columns df)]"

text \<open>The position of the first column of a label.\<close>

definition col_pos :: "string \<Rightarrow> string list \<Rightarrow> nat" where
  "col_pos name cs = length (takeWhile (\<lambda>c. c \<noteq> name) cs)"

text \<open>\<^verbatim>\<open>risk_free_rate + beta * (mkt_mean_ret - risk_free_rate)\<close> on cells.\<close>

definition capm_cell :: "real \<Rightarrow> cell \<Rightarrow> cell \<Rightarrow> cell" where
  "capm_cell risk_free_rate beta mkt_mean_ret =
     (case (beta, mkt_mean_ret) of
        (Some b, Some m) \<Rightarrow> Some (risk_free_rate + b * (m - risk_free_rate))
      | _ \<Rightarrow> None)"

text \<open>Lines 265-279, on the table that holds the assets and the column \<^verbatim>\<open>mkt\<close>.\<close>

definition capm_estimate :: "frame \<Rightarrow> real \<Rightarrow> bool \<Rightarrow> int \<Rightarrow> series" where
  "capm_estimate returns risk_free_rate compounding frequency =
     (let cov = cov_matrix returns;
          m = col_pos ''mkt'' (columns returns);
          betas = map (\<lambda>j. (columns returns ! j, cdiv (cov ! j ! m) (cov ! m ! m)))
                      [0..<length (columns returns)];
          betas = filter (\<lambda>(c, b). c \<noteq> ''mkt'') betas;
          mkt = col_values returns m;
          mkt_mean_ret = (if compounding then compound_col frequency mkt
                          else arith_col frequency mkt)
      in map (\<lambda>(c, b). (c, capm_cell risk_free_rate b mkt_mean_ret)) betas)"

text \<open>Lines 248-256: what the names \<^verbatim>\<open>returns\<close> and \<^verbatim>\<open>market_returns\<close> are bound to.
  With \<^verbatim>\<open>returns_data\<close> they are aliases of the arguments; otherwise they name fresh
  tables.\<close>

definition capm_bind :: "heap \<Rightarrow> addr \<Rightarrow> addr option \<Rightarrow> bool \<Rightarrow> addr \<times> addr option \<times> heap" where
  "capm_bind h prices market_prices returns_data =
     (if returns_data then (prices, market_prices, h)
      else let (r, h') = alloc (returns_from_prices_pd (objs h prices) False) h
           in case market_prices of
                Some mp \<Rightarrow>
                  let (m, h'') = alloc (returns_from_prices_pd (objs h' mp) False) h'
                  in (r, Some m, h'')
              | None \<Rightarrow> (r, None, h'))"

text \<open>Lines 258-263: the market column. The assignments \<^verbatim>\<open>returns["mkt"] = ...\<close> and
  \<^verbatim>\<open>market_returns.columns = ["mkt"]\<close> write to the named object; \<^verbatim>\<open>join\<close> makes a
  fresh table. The result is the address of the combined table, or the exception, and
  the store after the statements.\<close>

definition capm_market :: "heap \<Rightarrow> addr \<Rightarrow> addr option \<Rightarrow> (exn + addr) \<times> heap" where
  "capm_market h1 returns market_returns =
     (case market_returns of
        None \<Rightarrow>
          (Inr returns,
           store returns
             (set_column ''mkt'' (row_means (objs h1 returns)) (objs h1 returns)) h1)
      | Some m \<Rightarrow>
          if length (columns (objs h1 m)) \<noteq> 1
          then (Inl (Raise ''ValueError'' ''Length mismatch''), h1)
          else let h2 = store m ((objs h1 m)\<lparr>columns := [''mkt'']\<rparr>) h1
               in case join_left (objs h2 returns) (objs h2 m) of
                    Inl e \<Rightarrow> (Inl e, h2)
                  | Inr joined \<Rightarrow> (let (j, h3) = alloc joined h2 in (Inr j, h3)))"

text \<open>Lines 248-263: the table of returns that the estimate is computed on.\<close>

definition capm_inputs :: "heap \<Rightarrow> addr \<Rightarrow> addr option \<Rightarrow> bool \<Rightarrow> (exn + addr) \<times> heap" where
  "capm_inputs h prices market_prices returns_data =
     (let (returns, market_returns, h1) = capm_bind h prices market_prices returns_data
      in capm_market h1 returns market_returns)"

text \<open>\<^verbatim>\<open>capm_return(prices, market_prices, returns_data, risk_free_rate, compounding,
  frequency)\<close> on data frames: the estimate or the exception, and the store after the
  call.\<close>

definition capm_return ::
  "heap \<Rightarrow> addr \<Rightarrow> addr option \<Rightarrow> bool \<Rightarrow> real \<Rightarrow> bool \<Rightarrow> int \<Rightarrow> (exn + series) \<times> heap" where
  "capm_return h prices market_prices returns_data risk_free_rate compounding frequency =
     (case capm_inputs h prices market_prices returns_data of
        (Inl e, h') \<Rightarrow> (Inl e, h')
      | (Inr returns, h') \<Rightarrow>
          (Inr (capm_estimate (objs h' returns) risk_free_rate compounding frequency), h'))"

subsection \<open>return_model\<close>

text \<open>The keyword arguments of a call, each given or absent.\<close>

record kwargs =
  kw_market_prices :: "addr option option"
  kw_returns_data :: "bool option"
  kw_risk_free_rate :: "real option"
  kw_compounding :: "bool option"
  kw_span :: "int option"
  kw_frequency :: "int option"

definition unexpected_keyword :: "string \<Rightarrow> exn" where
  "unexpected_keyword f = Raise ''TypeError'' (f @ ''() got an unexpected keyword argument'')"

text \<open>The call \<^verbatim>\<open>mean_historical_return(prices, **kwargs)\<close>: the keywords bind the
  parameters, an absent one takes its default, and a keyword that is no parameter of
  the function is a \<^verbatim>\<open>TypeError\<close>. Likewise for the other two estimators.\<close>

definition mean_historical_return_call :: "heap \<Rightarrow> addr \<Rightarrow> kwargs \<Rightarrow> (exn + series) \<times> heap" where
  "mean_historical_return_call h prices kw =
     (if kw_market_prices kw \<noteq> None \<or> kw_risk_free_rate kw \<noteq> None \<or> kw_span kw \<noteq> None
      then (Inl (unexpected_keyword ''mean_historical_return''), h)
      else (Inr (mean_historical_return (objs h prices)
                   (case kw_returns_data kw of Some b \<Rightarrow> b | None \<Rightarrow> False)
                   (case kw_compounding kw of Some b \<Rightarrow> b | None \<Rightarrow> True)
                   (case kw_frequency kw of Some f \<Rightarrow> f | None \<Rightarrow> 252)), h))"

definition ema_historical_return_call :: "heap \<Rightarrow> addr \<Rightarrow> kwargs \<Rightarrow> (exn + series) \<times> heap" where
  "ema_historical_return_call h prices kw =
     (if kw_market_prices kw \<noteq> None \<or> kw_risk_free_rate kw \<noteq> None
      then (Inl (unexpected_keyword ''ema_historical_return''), h)
      else (ema_historical_return (objs h prices)
              (case kw_returns_data kw of Some b \<Rightarrow> b | None \<Rightarrow> False)
              (case kw_compounding kw of Some b \<Rightarrow> b | None \<Rightarrow> True)
              (case kw_span kw of Some s \<Rightarrow> s | None \<Rightarrow> 500)
              (case kw_frequency kw of Some f \<Rightarrow> f | None \<Rightarrow> 252), h))"

definition capm_return_call :: "heap \<Rightarrow> addr \<Rightarrow> kwargs \<Rightarrow> (exn + series) \<times> heap" where
  "capm_return_call h prices kw =
     (if kw_span kw \<noteq> None
      then (Inl (unexpected_keyword ''capm_return''), h)
      else capm_return h prices
             (case kw_market_prices kw of Some m \<Rightarrow> m | None \<Rightarrow> None)
             (case kw_returns_data kw of Some b \<Rightarrow> b | None \<Rightarrow> False)
             (case kw_risk_free_rate kw of Some r \<Rightarrow> r | None \<Rightarrow> 2 / 100)
             (case kw_compounding kw of Some b \<Rightarrow> b | None \<Rightarrow> True)
             (case kw_frequency kw of Some f \<Rightarrow> f | None \<Rightarrow> 252))"

text \<open>\<^verbatim>\<open>return_model(prices, method, **kwargs)\<close> (lines 119-126).\<close>

definition return_model :: "heap \<Rightarrow> addr \<Rightarrow> string \<Rightarrow> kwargs \<Rightarrow> (exn + series) \<times> heap" where
  "return_model h prices method kw =
     (if method = ''mean_historical_return'' then mean_historical_return_call h prices kw
      else if method = ''ema_historical_return'' then ema_historical_return_call h prices kw
      else if method = ''capm_return'' then capm_return_call h prices kw
      else (Inl (Raise ''NotImplementedError''
                   (''Return model '' @ method @ '' not implemented'')), h))"

section \<open>Well-formed inputs\<close>

text \<open>A price matrix: one date per row, at least one asset column, one positive
  price in every cell.\<close>

definition pos_row :: "nat \<Rightarrow> cell list \<Rightarrow> bool" where
  "pos_row n r \<longleftrightarrow>
     length r = n \<and> (\<forall>c \<in> set r. case c of Some p \<Rightarrow> 0 < p | None \<Rightarrow> False)"

definition price_matrix :: "frame \<Rightarrow> bool" where
  "price_matrix df \<longleftrightarrow>
     length (index df) = length (rows df) \<and> columns df \<noteq> [] \<and>
     (\<forall>r \<in> set (rows df). pos_row (length (columns df)) r)"

text \<open>The price of asset \<open>j\<close> at date \<open>t\<close>.\<close>

definition price :: "frame \<Rightarrow> nat \<Rightarrow> nat \<Rightarrow> real" where
  "price df t j = the (rows df ! t ! j)"

text \<open>The single-asset price series 100, 110, 121.\<close>

definition ex_prices :: frame where
  "ex_prices = \<lparr>index = [0, 1, 2], columns = [''A''],
                 rows = [[Some 100], [Some 110], [Some 121]]\<rparr>"

text \<open>The ratio-normalised table \<^verbatim>\<open>P[k:] / P[k]\<close>: the rows from row \<open>k\<close> on, each divided
  cell by cell by row \<open>k\<close>. The table \<^verbatim>\<open>P / P[0]\<close> is \<open>normalised_from 0 P\<close>.\<close>

definition normalised_from :: "nat \<Rightarrow> frame \<Rightarrow> frame" where
  "normalised_from k df =
     df\<lparr>index := drop k (index df),
        rows := map (\<lambda>r. map2 cdiv r (rows df ! k)) (drop k (rows df))\<rparr>"

text \<open>The growth factor that \<open>prices_from_returns\<close> computes from a cell of
  \<open>returns_from_prices\<close>: \<^verbatim>\<open>np.exp\<close> of the log return, or one plus the return.\<close>

definition growth :: "bool \<Rightarrow> cell \<Rightarrow> cell \<Rightarrow> cell" where
  "growth lg c p =
     (if lg then map_option exp (log1p_cell (pct c p))
      else map_option (\<lambda>v. 1 + v) (pct c p))"

section \<open>The two execution paths on the same data\<close>

text \<open>The Spark record of one pandas row: the cells under their column labels and the
  date under \<^verbatim>\<open>date_index\<close>.\<close>

definition spark_row :: "string list \<Rightarrow> real \<Rightarrow> cell list \<Rightarrow> (string \<rightharpoonup> cell)" where
  "spark_row cs d r = (map_of (zip cs r))(''date_index'' \<mapsto> Some d)"

text \<open>Asset labels that the Spark path can carry: no duplicates, and none of the two
  names the path uses itself.\<close>

definition asset_labels :: "string list \<Rightarrow> bool" where
  "asset_labels cs \<longleftrightarrow>
     distinct cs \<and> ''date_index'' \<notin> set cs \<and> ''tmp_lag_1'' \<notin> set cs"

text \<open>A Spark table holds the data of a pandas table: its columns are the asset columns
  and \<^verbatim>\<open>date_index\<close>, in any order, and its records are the rows, in any order.\<close>

definition same_data :: "frame \<Rightarrow> sframe \<Rightarrow> bool" where
  "same_data df sdf \<longleftrightarrow>
     distinct (scolumns sdf) \<and>
     set (scolumns sdf) = insert ''date_index'' (set (columns df)) \<and>
     mset (srows sdf) = mset (map2 (spark_row (columns df)) (index df) (rows df))"

abbreviation date_key :: "(string \<rightharpoonup> cell) \<Rightarrow> cell" where
  "date_key r \<equiv> sget r ''date_index''"

text \<open>What one round of the Spark loop leaves in a cell, from the cell and its lag.\<close>

definition spark_cell :: "bool \<Rightarrow> cell \<Rightarrow> cell \<Rightarrow> cell" where
  "spark_cell lg cur prev =
     (if lg then log1p_cell (spark_ret cur prev) else spark_ret cur prev)"

text \<open>The rows after one round of the loop on date-ordered rows.\<close>

definition step_rows ::
  "bool \<Rightarrow> string \<Rightarrow> (string \<rightharpoonup> cell) list \<Rightarrow> (string \<rightharpoonup> cell) list" where
  "step_rows lg c rws =
     map2 (\<lambda>r l. r(c \<mapsto> spark_cell lg (sget r c) l)) rws (lag (map (\<lambda>r. sget r c) rws))"

definition prev_cell :: "(string \<rightharpoonup> cell) list \<Rightarrow> nat \<Rightarrow> string \<Rightarrow> cell" where
  "prev_cell rws t c = (if t = 0 then None else sget (rws ! (t - 1)) c)"

text \<open>The state between two rounds of the loop: the rows are in date order and the
  helper column is gone.\<close>

definition ordered_rows :: "sframe \<Rightarrow> bool" where
  "ordered_rows s \<longleftrightarrow>
     sorted (map date_key (srows s)) \<and> (\<forall>r \<in> set (srows s). r ''tmp_lag_1'' = None) \<and>
     ''tmp_lag_1'' \<notin> set (scolumns s)"

text \<open>The example prices as a Spark table, its records out of date order.\<close>

definition ex_spark :: sframe where
  "ex_spark = \<lparr>scolumns = [''date_index'', ''A''],
                srows = [spark_row [''A''] 1 [Some 110], spark_row [''A''] 0 [Some 100],
                         spark_row [''A''] 2 [Some 121]]\<rparr>"

text \<open>The two misuses of distributed mode: a pandas table, or a Spark table without
  the \<^verbatim>\<open>date_index\<close> column.\<close>

definition misuse :: "table \<Rightarrow> bool" where
  "misuse prices =
     (case prices of Pandas df \<Rightarrow> True
      | Spark sdf \<Rightarrow> ''date_index'' \<notin> set (scolumns sdf))"

text \<open>The class of the exception a call raised, if it raised one.\<close>

fun raised :: "exn + 'a \<Rightarrow> string option" where
  "raised (Inl (Raise cls msg)) = Some cls"
| "raised (Inr v) = None"

text \<open>A returns table with missing cells.\<close>

definition ex_returns_nan :: frame where
  "ex_returns_nan = \<lparr>index = [1, 2, 3], columns = [''A'', ''B''],
       rows = [[Some (1 / 10), Some (1 / 2)], [None, Some (- 1 / 2)], [Some (1 / 10), None]]\<rparr>"

section \<open>The exponentially weighted average\<close>

text \<open>The exponentially weighted average of a series with decay \<open>1 - \<alpha>\<close>: the
  observation \<open>i\<close> steps before the last has the weight \<open>(1 - \<alpha>) ^ i\<close>.\<close>

definition ew_avg :: "real \<Rightarrow> real list \<Rightarrow> real" where
  "ew_avg \<alpha> xs =
     (\<Sum>i<length xs. (1 - \<alpha>) ^ i * xs ! (length xs - 1 - i)) / (\<Sum>i<length xs. (1 - \<alpha>) ^ i)"

text \<open>Its weighted sum and its sum of weights, accumulated from the oldest value.\<close>

definition ew_num :: "real \<Rightarrow> real list \<Rightarrow> real" where
  "ew_num \<beta> ys = foldl (\<lambda>s x. \<beta> * s + x) 0 ys"

definition ew_den :: "real \<Rightarrow> real list \<Rightarrow> real" where
  "ew_den \<beta> ys = foldl (\<lambda>w x. \<beta> * w + 1) 0 ys"

text \<open>A returns table of one asset and two dates.\<close>

definition ex_two_returns :: frame where
  "ex_two_returns =
     \<lparr>index = [1, 2], columns = [''A''], rows = [[Some (1 / 10)], [Some (3 / 10)]]\<rparr>"

section \<open>Dispatch and store examples\<close>

text \<open>The class of an exception.\<close>

fun exn_class :: "exn \<Rightarrow> string" where
  "exn_class (Raise cls msg) = cls"

text \<open>The three model names \<open>return_model\<close> knows.\<close>

definition model_names :: "string set" where
  "model_names = {''mean_historical_return'', ''ema_historical_return'', ''capm_return''}"

text \<open>A call without keyword arguments.\<close>

definition no_kwargs :: kwargs where
  "no_kwargs = \<lparr>kw_market_prices = None, kw_returns_data = None, kw_risk_free_rate = None,
                 kw_compounding = None, kw_span = None, kw_frequency = None\<rparr>"

text \<open>A store of two tables: address 0 holds the caller's returns table, address 1 the
  returns of a market series.\<close>

definition ex_heap :: heap where
  "ex_heap = \<lparr>objs = (\<lambda>a. ex_two_returns), nxt = 2\<rparr>"

section \<open>Properties\<close>

subsection \<open>The pandas return transform\<close>

lemma pos_row_nth: "pos_row n r \<Longrightarrow> j < n \<Longrightarrow> \<exists>p. r ! j = Some p \<and> 0 < p"
  unfolding pos_row_def by (metis nth_mem option.case_eq_if option.collapse)

lemma pct_pos:
  assumes "pos_row n r" "pos_row n q" "j < n"
  shows "map2 pct r q ! j = Some (the (r ! j) / the (q ! j) - 1)"
proof -
  obtain a where a: "r ! j = Some a" "0 < a" using pos_row_nth[OF assms(1,3)] by blast
  obtain b where b: "q ! j = Some b" "0 < b" using pos_row_nth[OF assms(2,3)] by blast
  have "length r = n" "length q = n" using assms by (auto simp: pos_row_def)
  then show ?thesis using a b assms(3) by (simp add: pct_def fdiv_def)
qed

lemma pct_first: "map2 pct r (map (\<lambda>_. None) r) = map (\<lambda>_. None) r"
  by (induction r) (auto simp: pct_def split: option.splits)

lemma price_matrix_rows:
  "price_matrix df \<Longrightarrow> r \<in> set (rows df) \<Longrightarrow> pos_row (length (columns df)) r"
  by (simp add: price_matrix_def)

lemma zip_butlast_Cons: "zip xs (butlast (y # xs)) = zip xs (y # xs)"
  by (induction xs arbitrary: y) auto

lemma filter_zip_all:
  assumes "\<And>x. x \<in> set xs \<Longrightarrow> P x" "length ds = length xs"
  shows "filter (\<lambda>(d, r). P r) (zip ds xs) = zip ds xs"
  by (rule filter_True) (use assms in \<open>auto dest: set_zip_rightD\<close>)

lemma dropna_pct_rows:
  fixes g :: "cell \<Rightarrow> cell"
  assumes pm: "price_matrix df" and rws: "rows df = r0 # rs"
    and gN: "g None = None"
    and gS: "\<And>x y. 0 < x \<Longrightarrow> 0 < y \<Longrightarrow> g (Some (x / y - 1)) \<noteq> None"
  shows "dropna_all (map_cells g (pct_change df)) =
           df\<lparr>index := tl (index df),
              rows := map2 (map2 (\<lambda>c p. g (pct c p))) rs (r0 # rs)\<rparr>"
proof -
  let ?n = "length (columns df)"
  obtain d0 ds where idx: "index df = d0 # ds" "length ds = length rs"
    using pm rws by (cases "index df") (auto simp: price_matrix_def)
  have pr: "\<And>r. r \<in> set (r0 # rs) \<Longrightarrow> pos_row ?n r"
    using price_matrix_rows[OF pm] rws by simp
  have n0: "0 < ?n" using pm by (simp add: price_matrix_def)
  have prows: "rows (pct_change df) = map (\<lambda>_. None) r0 # map2 (map2 pct) rs (r0 # rs)"
    by (simp add: pct_change_def rws shift_rows_def pct_first zip_butlast_Cons del: butlast.simps)
  let ?R = "map2 (map2 (\<lambda>c p. g (pct c p))) rs (r0 # rs)"
  have grows: "rows (map_cells g (pct_change df)) = map (\<lambda>_. None) r0 # ?R"
    by (simp add: map_cells_def prows gN split_def)
  have some: "\<exists>c \<in> set r. c \<noteq> None" if "r \<in> set ?R" for r
  proof -
    from that obtain a b where ab: "(a, b) \<in> set (zip rs (r0 # rs))" "r = map2 (\<lambda>c p. g (pct c p)) a b"
      by auto
    have pa: "pos_row ?n a" and pb: "pos_row ?n b"
      using ab(1) pr by (auto dest: set_zip_leftD set_zip_rightD)
    obtain x where x: "a ! 0 = Some x" "0 < x" using pos_row_nth[OF pa n0] by blast
    obtain y where y: "b ! 0 = Some y" "0 < y" using pos_row_nth[OF pb n0] by blast
    have len: "length a = ?n" "length b = ?n" using pa pb by (auto simp: pos_row_def)
    have "r ! 0 = g (Some (x / y - 1))"
      using len n0 x y ab(2) by (simp add: pct_def fdiv_def)
    moreover have "g (Some (x / y - 1)) \<noteq> None"
      using x y gS by simp
    moreover have "0 < length r" using len n0 ab(2) by simp
    ultimately show ?thesis by (metis nth_mem)
  qed
  have keep: "filter (\<lambda>(d, r). \<exists>c \<in> set r. c \<noteq> None) (zip ds ?R) = zip ds ?R"
    by (rule filter_zip_all) (use some idx in auto)
  let ?X = "map_cells g (pct_change df)"
  have X: "?X = df\<lparr>rows := map (\<lambda>_. None) r0 # ?R\<rparr>"
    using grows by (simp add: map_cells_def pct_change_def)
  have nokeep: "\<not> (\<exists>c \<in> set (map (\<lambda>_. None :: cell) r0). c \<noteq> None)"
    by simp
  have "dropna_all ?X = ?X\<lparr>index := map fst (zip ds ?R), rows := map snd (zip ds ?R)\<rparr>"
    unfolding dropna_all_def Let_def X using keep nokeep idx(1) by simp
  also have "\<dots> = df\<lparr>index := ds, rows := ?R\<rparr>"
    using idx(2) by (simp add: X)
  finally show ?thesis using idx(1) by simp
qed

lemma returns_pd_rows:
  assumes pm: "price_matrix df" and rws: "rows df = r0 # rs"
  shows "returns_from_prices_pd df lg =
           df\<lparr>index := tl (index df),
              rows := map2 (map2 (\<lambda>c p. (if lg then log1p_cell (pct c p) else pct c p))) rs (r0 # rs)\<rparr>"
proof (cases lg)
  case True
  show ?thesis
    using dropna_pct_rows[OF pm rws, of log1p_cell] True
    by (simp add: returns_from_prices_pd_def log1p_cell_def flog_def)
next
  case False
  have "map_cells id (pct_change df) = pct_change df"
    by (simp add: map_cells_def)
  then show ?thesis
    using dropna_pct_rows[OF pm rws, of id] False
    by (simp add: returns_from_prices_pd_def)
qed

text \<open>
  C1. For a price matrix with at least two date rows and positive prices, the pandas
  branch of \<open>returns_from_prices\<close> returns the table whose cell at result row \<open>t\<close> is the
  return from date \<open>t\<close> to date \<open>t + 1\<close>: \<open>p[t+1] / p[t] - 1\<close>, or \<open>ln (p[t+1] / p[t])\<close> for
  log returns. The first date is dropped: the result has the columns of the input, the
  dates but the first, and one row less.
\<close>

theorem returns_from_prices_cellwise:
  assumes pm: "price_matrix df" and two: "2 \<le> length (rows df)"
  shows "let R = returns_from_prices_pd df lg in
           returns_from_prices (Pandas df) lg False = Inr (Pandas R) \<and>
           columns R = columns df \<and> index R = tl (index df) \<and>
           length (index R) = length (rows R) \<and>
           length (rows R) = length (rows df) - 1 \<and>
           (\<forall>t < length (rows R).
              length (rows R ! t) = length (columns df) \<and>
              (\<forall>j < length (columns df).
                 rows R ! t ! j =
                   Some (if lg then ln (price df (Suc t) j / price df t j)
                         else price df (Suc t) j / price df t j - 1)))"
proof -
  let ?n = "length (columns df)"
  obtain r0 rs where rws: "rows df = r0 # rs" using two by (cases "rows df") auto
  note R = returns_pd_rows[OF pm rws, of lg]
  have pr: "\<And>r. r \<in> set (r0 # rs) \<Longrightarrow> pos_row ?n r"
    using price_matrix_rows[OF pm] rws by simp
  have cell: "length (rows (returns_from_prices_pd df lg) ! t) = ?n \<and>
       (\<forall>j < ?n. rows (returns_from_prices_pd df lg) ! t ! j =
          Some (if lg then ln (price df (Suc t) j / price df t j)
                else price df (Suc t) j / price df t j - 1))"
    if t: "t < length rs" for t
  proof -
    have pa: "pos_row ?n (rs ! t)" and pb: "pos_row ?n ((r0 # rs) ! t)"
      using t pr by (auto simp: nth_Cons split: nat.splits)
    have len: "length (rs ! t) = ?n" "length ((r0 # rs) ! t) = ?n"
      using pa pb by (auto simp: pos_row_def)
    have row: "rows (returns_from_prices_pd df lg) ! t =
        map2 (\<lambda>c p. if lg then log1p_cell (pct c p) else pct c p) (rs ! t) ((r0 # rs) ! t)"
      using t by (simp add: R)
    have "rows (returns_from_prices_pd df lg) ! t ! j =
          Some (if lg then ln (price df (Suc t) j / price df t j)
                else price df (Suc t) j / price df t j - 1)" if j: "j < ?n" for j
    proof -
      obtain x where x: "rs ! t ! j = Some x" "0 < x" using pos_row_nth[OF pa j] by blast
      obtain y where y: "(r0 # rs) ! t ! j = Some y" "0 < y" using pos_row_nth[OF pb j] by blast
      have px: "price df (Suc t) j = x" and py: "price df t j = y"
        using x y by (simp_all add: price_def rws)
      show ?thesis
        unfolding row px py using len j x y
        by (simp add: pct_def fdiv_def log1p_cell_def flog_def)
    qed
    then show ?thesis using len by (simp add: row)
  qed
  have idx: "length (index df) = length (rows df)" using pm by (simp add: price_matrix_def)
  have c1: "columns (returns_from_prices_pd df lg) = columns df"
    and c2: "index (returns_from_prices_pd df lg) = tl (index df)"
    and c3: "length (rows (returns_from_prices_pd df lg)) = length rs"
    by (simp_all add: R)
  have c4: "returns_from_prices (Pandas df) lg False = Inr (Pandas (returns_from_prices_pd df lg))"
    by (simp add: returns_from_prices_def)
  show ?thesis
    unfolding Let_def c1 c2 c3 c4 using cell idx rws by simp
qed

theorem returns_from_prices_cellwise_witness:
  "price_matrix ex_prices \<and> 2 \<le> length (rows ex_prices) \<and>
   returns_from_prices (Pandas ex_prices) False False =
     Inr (Pandas \<lparr>index = [1, 2], columns = [''A''], rows = [[Some (1 / 10)], [Some (1 / 10)]]\<rparr>) \<and>
   rows (returns_from_prices_pd ex_prices True) ! 1 ! 0 = Some (ln (11 / 10))"
proof -
  have pm: "price_matrix ex_prices" by (simp add: price_matrix_def pos_row_def ex_prices_def)
  have two: "2 \<le> length (rows ex_prices)" by (simp add: ex_prices_def)
  have ev: "returns_from_prices_pd ex_prices False =
      \<lparr>index = [1, 2], columns = [''A''], rows = [[Some (1 / 10)], [Some (1 / 10)]]\<rparr>"
    by (simp add: returns_from_prices_pd_def dropna_all_def pct_change_def shift_rows_def
        pct_def fdiv_def ex_prices_def del: not_None_eq)
  show ?thesis
    using returns_from_prices_cellwise[OF pm two, of False]
          returns_from_prices_cellwise[OF pm two, of True] pm two
    by (simp add: Let_def ev) (simp add: price_def ex_prices_def)
qed

subsection \<open>The round trip through prices_from_returns\<close>

lemma pos_row_reals:
  assumes "pos_row n r"
  obtains xs where "r = map Some xs" "length xs = n" "\<forall>x \<in> set xs. 0 < x"
proof
  show "r = map Some (map the r)"
    using assms by (auto simp: pos_row_def map_idI split: option.splits)
  show "length (map the r) = n" using assms by (simp add: pos_row_def)
  show "\<forall>x \<in> set (map the r). 0 < x"
    using assms by (auto simp: pos_row_def split: option.splits)
qed

lemma growth_pos: "0 < x \<Longrightarrow> 0 < y \<Longrightarrow> growth lg (Some x) (Some y) = Some (x / y)"
  by (simp add: growth_def pct_def fdiv_def log1p_cell_def flog_def)

lemma growth_row:
  assumes "length xs = length ys" "\<forall>x \<in> set xs. 0 < x" "\<forall>y \<in> set ys. 0 < y"
  shows "map2 (growth lg) (map Some xs) (map Some ys) = map Some (map2 (/) xs ys)"
  using assms by (induction xs ys rule: list_induct2) (auto simp: growth_pos)

lemma cumprod_acc_Some:
  "length acc = length vs \<Longrightarrow>
   map2 (\<lambda>a c. case c of None \<Rightarrow> a | Some v \<Rightarrow> a * v) acc (map Some vs) = map2 (*) acc vs"
  by (induction acc vs rule: list_induct2) auto

lemma cumprod_out_Some:
  "length acc = length vs \<Longrightarrow>
   map2 (\<lambda>a c. map_option (\<lambda>_. a) c) acc (map Some vs) = map Some acc"
  by (induction acc vs rule: list_induct2) auto

lemma cumprod_rows_Some_step:
  assumes "length acc = length vs"
  shows "cumprod_rows acc (map Some vs # rest) =
           map Some (map2 (*) acc vs) # cumprod_rows (map2 (*) acc vs) rest"
proof -
  have "map2 (\<lambda>a c. map_option (\<lambda>_. a) c) (map2 (*) acc vs) (map Some vs) = map Some (map2 (*) acc vs)"
    by (rule cumprod_out_Some) (use assms in simp)
  then show ?thesis
    using assms by (simp add: Let_def cumprod_acc_Some)
qed

lemma telescope:
  fixes xs ps bs :: "real list"
  assumes "length xs = length ps" "length ps = length bs" "\<forall>p \<in> set ps. 0 < p"
  shows "map2 (*) (map2 (/) ps bs) (map2 (/) xs ps) = map2 (/) xs bs"
  using assms by (induction xs ps bs rule: list_induct3) auto

lemma cdiv_row:
  assumes "length xs = length bs" "\<forall>b \<in> set bs. 0 < b"
  shows "map2 cdiv (map Some xs) (map Some bs) = map Some (map2 (/) xs bs)"
  using assms by (induction xs bs rule: list_induct2) (auto simp: cdiv_def fdiv_def)

lemma cumprod_ratios:
  assumes "\<forall>r \<in> set (prev # rs). pos_row n r" "pos_row n base"
    and "acc = map2 (/) (map the prev) (map the base)"
  shows "cumprod_rows acc (map2 (map2 (growth lg)) rs (prev # rs)) = map (\<lambda>r. map2 cdiv r base) rs"
  using assms
proof (induction rs arbitrary: prev acc)
  case Nil
  then show ?case by simp
next
  case (Cons r rs)
  obtain xs where xs: "r = map Some xs" "length xs = n" "\<forall>x \<in> set xs. 0 < x"
    using Cons.prems(1) by (auto elim: pos_row_reals)
  obtain ps where ps: "prev = map Some ps" "length ps = n" "\<forall>x \<in> set ps. 0 < x"
    using Cons.prems(1) by (auto elim: pos_row_reals)
  obtain bs where bs: "base = map Some bs" "length bs = n" "\<forall>x \<in> set bs. 0 < x"
    using Cons.prems(2) by (auto elim: pos_row_reals)
  have acc: "acc = map2 (/) ps bs" using Cons.prems(3) ps bs by (simp add: comp_def)
  have g: "map2 (growth lg) r prev = map Some (map2 (/) xs ps)"
    unfolding xs ps by (rule growth_row) (use xs ps in auto)
  have acc': "map2 (*) acc (map2 (/) xs ps) = map2 (/) xs bs"
    unfolding acc by (rule telescope) (use xs ps bs in auto)
  have next_acc: "map2 (/) xs bs = map2 (/) (map the r) (map the base)"
    by (simp add: xs bs comp_def)
  have IH: "cumprod_rows (map2 (/) xs bs) (map2 (map2 (growth lg)) rs (r # rs)) = map (\<lambda>r. map2 cdiv r base) rs"
    by (rule Cons.IH) (use Cons.prems next_acc in auto)
  have len: "length acc = length (map2 (/) xs ps)" using xs ps bs acc by simp
  have out: "map2 cdiv r base = map Some (map2 (/) xs bs)"
    unfolding xs bs by (rule cdiv_row) (use xs bs in auto)
  have "cumprod_rows acc (map2 (map2 (growth lg)) (r # rs) (prev # r # rs)) =
        cumprod_rows acc (map Some (map2 (/) xs ps) # map2 (map2 (growth lg)) rs (r # rs))"
    by (simp only: zip_Cons_Cons list.map prod.case g)
  also have "\<dots> = map Some (map2 (/) xs bs) # cumprod_rows (map2 (/) xs bs) (map2 (map2 (growth lg)) rs (r # rs))"
    by (simp only: cumprod_rows_Some_step[OF len] acc')
  also have "\<dots> = map2 cdiv r base # map (\<lambda>r. map2 cdiv r base) rs"
    by (simp only: IH out)
  finally show ?case by simp
qed

lemma self_ratio:
  fixes xs :: "real list"
  assumes "\<forall>x \<in> set xs. 0 < x"
  shows "map2 (/) xs xs = replicate (length xs) 1"
  using assms by (induction xs) auto

lemma ones_mult: "map2 (*) (replicate n 1) (replicate n (1::real)) = replicate n 1"
  by (induction n) auto

text \<open>
  C4 (as the code has it). For a price matrix \<open>P\<close> with at least two rows and for both
  return conventions, \<open>prices_from_returns (returns_from_prices P)\<close> is \<^verbatim>\<open>P[1:] / P[1]\<close>:
  the first date of \<open>P\<close> is absent, and every remaining row is divided by the second
  price row.
\<close>

theorem prices_from_returns_roundtrip:
  assumes pm: "price_matrix df" and two: "2 \<le> length (rows df)"
  shows "prices_from_returns (returns_from_prices_pd df lg) lg = Inr (normalised_from 1 df)"
proof -
  let ?n = "length (columns df)"
  obtain r0 r1 rs where rws: "rows df = r0 # r1 # rs"
    using two by (cases "rows df"; cases "tl (rows df)") auto
  have pr: "\<forall>r \<in> set (r1 # rs). pos_row ?n r" and p1: "pos_row ?n r1" and p0: "pos_row ?n r0"
    using price_matrix_rows[OF pm] rws by simp_all
  obtain xs where xs: "r1 = map Some xs" "length xs = ?n" "\<forall>x \<in> set xs. 0 < x"
    using p1 by (auto elim: pos_row_reals)
  obtain ys where ys: "r0 = map Some ys" "length ys = ?n" "\<forall>x \<in> set ys. 0 < x"
    using p0 by (auto elim: pos_row_reals)
  let ?h = "if lg then map_option exp else map_option (\<lambda>v. 1 + v :: real)"
  let ?ret = "map_cells ?h (returns_from_prices_pd df lg)"
  have R: "?ret = df\<lparr>index := tl (index df),
                       rows := map2 (map2 (growth lg)) (r1 # rs) (r0 # r1 # rs)\<rparr>"
    unfolding returns_pd_rows[OF pm rws]
    by (cases lg) (simp_all add: map_cells_def growth_def split_def)
  have first: "map2 (growth lg) r1 r0 = map Some (map2 (/) xs ys)"
    unfolding xs ys by (rule growth_row) (use xs ys in auto)
  have rret: "rows ?ret = map Some (map2 (/) xs ys) # map2 (map2 (growth lg)) rs (r1 # rs)"
    unfolding R using first by simp
  have ones: "map (\<lambda>_. Some 1) (map Some (map2 (/) xs ys)) = map Some (replicate ?n (1::real))"
    using xs ys by (simp add: map_replicate_const)
  have acc1: "replicate ?n (1::real) = map2 (/) (map the r1) (map the r1)"
    using self_ratio[OF xs(3)] xs by (simp add: comp_def)
  have cp: "cumprod_rows (replicate ?n 1) (map Some (replicate ?n 1) # map2 (map2 (growth lg)) rs (r1 # rs))
        = map Some (replicate ?n 1) # map (\<lambda>r. map2 cdiv r r1) rs"
  proof -
    have "cumprod_rows (replicate ?n 1) (map Some (replicate ?n 1) # map2 (map2 (growth lg)) rs (r1 # rs)) =
          map Some (map2 (*) (replicate ?n 1) (replicate ?n 1)) #
          cumprod_rows (map2 (*) (replicate ?n 1) (replicate ?n 1)) (map2 (map2 (growth lg)) rs (r1 # rs))"
      by (rule cumprod_rows_Some_step) simp
    then show ?thesis
      unfolding ones_mult cumprod_ratios[OF pr p1 acc1, of lg] .
  qed
  have self: "map2 cdiv r1 r1 = map Some (replicate ?n 1)"
    unfolding xs(1) using cdiv_row[of xs xs] self_ratio[OF xs(3)] xs by simp
  have lhs: "prices_from_returns (returns_from_prices_pd df lg) lg =
      Inr (cumprod (?ret\<lparr>rows := map Some (replicate ?n 1) # map2 (map2 (growth lg)) rs (r1 # rs)\<rparr>))"
    unfolding prices_from_returns_def Let_def using rret ones
    by (cases lg) simp_all
  show ?thesis
    unfolding lhs
    by (simp add: cumprod_def R cp normalised_from_def rws self drop_Suc
        cumprod_ratios[OF pr p1 acc1, of lg])
qed

lemma ex_returns:
  "returns_from_prices_pd ex_prices False =
     \<lparr>index = [1, 2], columns = [''A''], rows = [[Some (1 / 10)], [Some (1 / 10)]]\<rparr>"
  by (simp add: returns_from_prices_pd_def dropna_all_def pct_change_def shift_rows_def
      pct_def fdiv_def ex_prices_def del: not_None_eq)

lemma ex_log_returns:
  "returns_from_prices_pd ex_prices True =
     \<lparr>index = [1, 2], columns = [''A''], rows = [[Some (ln (11 / 10))], [Some (ln (11 / 10))]]\<rparr>"
  by (simp add: returns_from_prices_pd_def dropna_all_def pct_change_def shift_rows_def
      pct_def fdiv_def ex_prices_def map_cells_def log1p_cell_def flog_def del: not_None_eq)

theorem prices_from_returns_roundtrip_witness:
  "price_matrix ex_prices \<and> 2 \<le> length (rows ex_prices) \<and>
   prices_from_returns (returns_from_prices_pd ex_prices True) True =
     Inr \<lparr>index = [1, 2], columns = [''A''], rows = [[Some 1], [Some (11 / 10)]]\<rparr>"
proof -
  have pm: "price_matrix ex_prices" by (simp add: price_matrix_def pos_row_def ex_prices_def)
  have two: "2 \<le> length (rows ex_prices)" by (simp add: ex_prices_def)
  show ?thesis
    using prices_from_returns_roundtrip[OF pm two, of True] pm two
    by (simp add: normalised_from_def cdiv_def fdiv_def ex_prices_def)
qed

text \<open>
  C4 as stated fails on the prices 100, 110, 121: the round trip has two rows, 1 and
  1.1, where \<^verbatim>\<open>P / P[0]\<close> has the three rows 1, 1.1 and 1.21.
\<close>

theorem roundtrip_not_first_row_normalised:
  "prices_from_returns (returns_from_prices_pd ex_prices False) False =
     Inr \<lparr>index = [1, 2], columns = [''A''], rows = [[Some 1], [Some (11 / 10)]]\<rparr> \<and>
   prices_from_returns (returns_from_prices_pd ex_prices True) True =
     Inr \<lparr>index = [1, 2], columns = [''A''], rows = [[Some 1], [Some (11 / 10)]]\<rparr> \<and>
   normalised_from 0 ex_prices =
     \<lparr>index = [0, 1, 2], columns = [''A''],
      rows = [[Some 1], [Some (11 / 10)], [Some (121 / 100)]]\<rparr> \<and>
   prices_from_returns (returns_from_prices_pd ex_prices False) False \<noteq>
     Inr (normalised_from 0 ex_prices) \<and>
   prices_from_returns (returns_from_prices_pd ex_prices True) True \<noteq>
     Inr (normalised_from 0 ex_prices)"
  by (simp add: ex_returns ex_log_returns prices_from_returns_def map_cells_def cumprod_def)
     (simp add: normalised_from_def cdiv_def fdiv_def ex_prices_def)

subsection \<open>The Spark return transform\<close>

lemma sget_upd [simp]: "sget (r(c \<mapsto> v)) c' = (if c' = c then v else sget r c')"
  by (simp add: sget_def)

lemma step_update:
  assumes tmp: "r ''tmp_lag_1'' = None" and c: "c \<noteq> ''tmp_lag_1''"
  shows "(r(''tmp_lag_1'' \<mapsto> l, c \<mapsto> v))(''tmp_lag_1'' := None) = r(c \<mapsto> v)"
  using assms by (auto simp: fun_eq_iff)

lemma length_lag [simp]: "length (lag vs) = length vs"
  by (cases vs) (simp_all add: lag_def)

lemma nth_lag: "t < length vs \<Longrightarrow> lag vs ! t = (if t = 0 then None else vs ! (t - 1))"
  by (cases vs) (auto simp: lag_def nth_Cons nth_butlast split: nat.splits)

lemma lag_round:
  assumes "length rws = length l" "\<forall>r \<in> set rws. r ''tmp_lag_1'' = None" "c \<noteq> ''tmp_lag_1''"
  shows "map (\<lambda>r. r(''tmp_lag_1'' := None))
          (map2 (\<lambda>r v. r(c \<mapsto> v))
             (map2 (\<lambda>r v. r(''tmp_lag_1'' \<mapsto> v)) rws l)
             (map (\<lambda>r. spark_ret (sget r c) (sget r ''tmp_lag_1''))
                (map2 (\<lambda>r v. r(''tmp_lag_1'' \<mapsto> v)) rws l)))
        = map2 (\<lambda>r l. r(c \<mapsto> spark_ret (sget r c) l)) rws l"
  using assms by (induction rws l rule: list_induct2) (auto simp: fun_eq_iff sget_def)

lemma log_round:
  assumes "length rws = length l"
  shows "map2 (\<lambda>r v. r(c \<mapsto> v)) (map2 (\<lambda>r l. r(c \<mapsto> spark_ret (sget r c) l)) rws l)
           (map (\<lambda>r. log1p_cell (sget r c)) (map2 (\<lambda>r l. r(c \<mapsto> spark_ret (sget r c) l)) rws l))
         = map2 (\<lambda>r l. r(c \<mapsto> log1p_cell (spark_ret (sget r c) l))) rws l"
  using assms by (induction rws l rule: list_induct2) (auto simp: fun_eq_iff sget_def)

lemma spark_step_sorted:
  assumes srt: "sorted (map date_key (srows s))"
    and tmp: "\<forall>r \<in> set (srows s). r ''tmp_lag_1'' = None"
    and c: "c \<noteq> ''tmp_lag_1''" "c \<in> set (scolumns s)" "''tmp_lag_1'' \<notin> set (scolumns s)"
  shows "spark_step lg s c = s\<lparr>srows := step_rows lg c (srows s)\<rparr>"
proof -
  let ?rws = "srows s"
  let ?l = "lag (map (\<lambda>r. sget r c) ?rws)"
  have s1: "order_by_date s = s"
    using sort_key_id_if_sorted[OF srt] by (simp add: order_by_date_def)
  have len: "length ?rws = length ?l" by simp
  have cols: "filter (\<lambda>c. c \<noteq> ''tmp_lag_1'') (scolumns s) = scolumns s"
    using c(3) by (auto simp: filter_id_conv)
  define s2 where "s2 = withColumn ''tmp_lag_1'' ?l s"
  define s3 where "s3 = withColumn c (map (\<lambda>r. spark_ret (sget r c) (sget r ''tmp_lag_1'')) (srows s2)) s2"
  define s4 where "s4 = drop_col ''tmp_lag_1'' s3"
  have r4: "srows s4 = map2 (\<lambda>r l. r(c \<mapsto> spark_ret (sget r c) l)) ?rws ?l"
    unfolding s4_def s3_def s2_def
    by (simp only: drop_col_def withColumn_def sframe.select_convs lag_round[OF len tmp c(1)])
  have c4: "scolumns s4 = scolumns s"
    unfolding s4_def s3_def s2_def using c cols
    by (simp add: drop_col_def withColumn_def)
  have e4: "s4 = s\<lparr>srows := map2 (\<lambda>r l. r(c \<mapsto> spark_ret (sget r c) l)) ?rws ?l\<rparr>"
    using r4 c4 by (cases s4; cases s) simp
  have r5: "srows (withColumn c (map (\<lambda>r. log1p_cell (sget r c)) (srows s4)) s4) =
      map2 (\<lambda>r l. r(c \<mapsto> log1p_cell (spark_ret (sget r c) l))) ?rws ?l"
    by (simp only: withColumn_def sframe.select_convs r4 log_round[OF len])
  have c5: "scolumns (withColumn c (map (\<lambda>r. log1p_cell (sget r c)) (srows s4)) s4) = scolumns s"
    using c c4 by (simp add: withColumn_def)
  have e5: "withColumn c (map (\<lambda>r. log1p_cell (sget r c)) (srows s4)) s4 =
      s\<lparr>srows := map2 (\<lambda>r l. r(c \<mapsto> log1p_cell (spark_ret (sget r c) l))) ?rws ?l\<rparr>"
    (is "?s5 = _")
    using r5 c5 by (cases ?s5; cases s) simp
  have "spark_step lg s c = (if lg then ?s5 else s4)"
    unfolding spark_step_def Let_def s1 s4_def s3_def s2_def ..
  then show ?thesis
    unfolding e5 unfolding e4 by (simp add: step_rows_def spark_cell_def)
qed

lemma length_step_rows [simp]: "length (step_rows lg c rws) = length rws"
  by (simp add: step_rows_def)

lemma step_rows_nth:
  "t < length rws \<Longrightarrow>
   step_rows lg c rws ! t = (rws ! t)(c \<mapsto> spark_cell lg (sget (rws ! t) c) (prev_cell rws t c))"
  by (simp add: step_rows_def nth_lag prev_cell_def)

lemma step_rows_dates:
  "c \<noteq> ''date_index'' \<Longrightarrow> map date_key (step_rows lg c rws) = map date_key rws"
  by (rule nth_equalityI) (simp_all add: step_rows_nth)

lemma spark_fold:
  assumes "ordered_rows s" "distinct cs" "set cs \<subseteq> set (scolumns s)"
    "''date_index'' \<notin> set cs" "''tmp_lag_1'' \<notin> set cs"
  shows "scolumns (foldl (spark_step lg) s cs) = scolumns s \<and>
         length (srows (foldl (spark_step lg) s cs)) = length (srows s) \<and>
         map date_key (srows (foldl (spark_step lg) s cs)) = map date_key (srows s) \<and>
         (\<forall>t < length (srows s). \<forall>c.
            sget (srows (foldl (spark_step lg) s cs) ! t) c =
              (if c \<in> set cs then spark_cell lg (sget (srows s ! t) c) (prev_cell (srows s) t c)
               else sget (srows s ! t) c))"
  using assms
proof (induction cs arbitrary: s)
  case Nil
  then show ?case by simp
next
  case (Cons a cs)
  let ?s1 = "s\<lparr>srows := step_rows lg a (srows s)\<rparr>"
  have a: "a \<noteq> ''tmp_lag_1''" "a \<noteq> ''date_index''" "a \<in> set (scolumns s)" "a \<notin> set cs"
    using Cons.prems by auto
  have ord: "sorted (map date_key (srows s))" "\<forall>r \<in> set (srows s). r ''tmp_lag_1'' = None"
    "''tmp_lag_1'' \<notin> set (scolumns s)"
    using Cons.prems(1) by (auto simp: ordered_rows_def)
  have step: "spark_step lg s a = ?s1"
    by (rule spark_step_sorted) (use a ord in auto)
  have tmp1: "\<forall>r \<in> set (srows ?s1). r ''tmp_lag_1'' = None"
    using ord(2) a(1) by (auto simp: step_rows_def dest: set_zip_leftD)
  have ord1: "ordered_rows ?s1"
    using ord tmp1 a by (simp add: ordered_rows_def step_rows_dates)
  have IH': "scolumns (foldl (spark_step lg) ?s1 cs) = scolumns ?s1 \<and>
         length (srows (foldl (spark_step lg) ?s1 cs)) = length (srows ?s1) \<and>
         map date_key (srows (foldl (spark_step lg) ?s1 cs)) = map date_key (srows ?s1) \<and>
         (\<forall>t < length (srows ?s1). \<forall>c.
            sget (srows (foldl (spark_step lg) ?s1 cs) ! t) c =
              (if c \<in> set cs then spark_cell lg (sget (srows ?s1 ! t) c) (prev_cell (srows ?s1) t c)
               else sget (srows ?s1 ! t) c))"
    by (rule Cons.IH[OF ord1]) (use Cons.prems in auto)
  have other: "sget (srows ?s1 ! t) c = sget (srows s ! t) c" if "t < length (srows s)" "c \<noteq> a" for t c
    using that by (simp add: step_rows_nth)
  have other_prev: "prev_cell (srows ?s1) t c = prev_cell (srows s) t c" if "t < length (srows s)" "c \<noteq> a" for t c
    using that by (simp add: prev_cell_def step_rows_nth)
  have this_col: "sget (srows ?s1 ! t) a = spark_cell lg (sget (srows s ! t) a) (prev_cell (srows s) t a)"
    if "t < length (srows s)" for t
    using that by (simp add: step_rows_nth)
  have len1: "length (srows ?s1) = length (srows s)" by simp
  have cells: "sget (srows (foldl (spark_step lg) ?s1 cs) ! t) c =
              (if c \<in> set (a # cs) then spark_cell lg (sget (srows s ! t) c) (prev_cell (srows s) t c)
               else sget (srows s ! t) c)" if t: "t < length (srows s)" for t c
  proof (cases "c = a")
    case True
    then show ?thesis using IH' t a(4) this_col[OF t] by simp
  next
    case False
    then show ?thesis using IH' t other[OF t False] other_prev[OF t False] by simp
  qed
  have "scolumns (foldl (spark_step lg) ?s1 cs) = scolumns s"
    using IH' by simp
  moreover have "length (srows (foldl (spark_step lg) ?s1 cs)) = length (srows s)"
    using IH' by simp
  moreover have "map date_key (srows (foldl (spark_step lg) ?s1 cs)) = map date_key (srows s)"
    using IH' a(2) by (simp add: step_rows_dates)
  ultimately show ?case
    unfolding foldl_Cons step using cells by blast
qed

lemma returns_pd_cell:
  assumes pm: "price_matrix df" and t: "Suc t < length (rows df)" and j: "j < length (columns df)"
  shows "rows (returns_from_prices_pd df lg) ! t ! j =
           Some (if lg then ln (price df (Suc t) j / price df t j)
                 else price df (Suc t) j / price df t j - 1)"
    and "length (rows (returns_from_prices_pd df lg) ! t) = length (columns df)"
proof -
  let ?n = "length (columns df)"
  obtain r0 rs where rws: "rows df = r0 # rs" using t by (cases "rows df") auto
  note R = returns_pd_rows[OF pm rws, of lg]
  have t': "t < length rs" using t rws by simp
  have pr: "\<And>r. r \<in> set (r0 # rs) \<Longrightarrow> pos_row ?n r"
    using price_matrix_rows[OF pm] rws by simp
  have pa: "pos_row ?n (rs ! t)" and pb: "pos_row ?n ((r0 # rs) ! t)"
    using t' pr by (auto simp: nth_Cons split: nat.splits)
  have len: "length (rs ! t) = ?n" "length ((r0 # rs) ! t) = ?n"
    using pa pb by (auto simp: pos_row_def)
  have row: "rows (returns_from_prices_pd df lg) ! t =
      map2 (\<lambda>c p. if lg then log1p_cell (pct c p) else pct c p) (rs ! t) ((r0 # rs) ! t)"
    using t' by (simp add: R)
  obtain x where x: "rs ! t ! j = Some x" "0 < x" using pos_row_nth[OF pa j] by blast
  obtain y where y: "(r0 # rs) ! t ! j = Some y" "0 < y" using pos_row_nth[OF pb j] by blast
  have px: "price df (Suc t) j = x" and py: "price df t j = y"
    using x y by (simp_all add: price_def rws)
  show "rows (returns_from_prices_pd df lg) ! t ! j =
           Some (if lg then ln (price df (Suc t) j / price df t j)
                 else price df (Suc t) j / price df t j - 1)"
    unfolding row px py using len j x y
    by (simp add: pct_def fdiv_def log1p_cell_def flog_def)
  show "length (rows (returns_from_prices_pd df lg) ! t) = ?n"
    using len by (simp add: row)
qed

lemma returns_pd_shape:
  assumes pm: "price_matrix df"
  shows "columns (returns_from_prices_pd df lg) = columns df"
    and "index (returns_from_prices_pd df lg) = tl (index df)"
    and "length (rows (returns_from_prices_pd df lg)) = length (rows df) - 1"
proof -
  show "columns (returns_from_prices_pd df lg) = columns df"
    by (simp add: returns_from_prices_pd_def dropna_all_def map_cells_def pct_change_def Let_def)
  show "index (returns_from_prices_pd df lg) = tl (index df)"
  proof (cases "rows df")
    case Nil
    then have "index df = []" using pm by (simp add: price_matrix_def)
    then show ?thesis
      by (simp add: returns_from_prices_pd_def dropna_all_def map_cells_def pct_change_def Let_def)
  next
    case (Cons r0 rs)
    show ?thesis by (simp add: returns_pd_rows[OF pm Cons])
  qed
  show "length (rows (returns_from_prices_pd df lg)) = length (rows df) - 1"
  proof (cases "rows df")
    case Nil
    then show ?thesis
      by (simp add: returns_from_prices_pd_def dropna_all_def map_cells_def pct_change_def Let_def shift_rows_def)
  next
    case (Cons r0 rs)
    show ?thesis by (simp add: returns_pd_rows[OF pm Cons] Cons)
  qed
qed

lemma filter_key_single:
  assumes "distinct (map f zs)" "k \<in> set zs"
  shows "filter (\<lambda>x. f k = f x) zs = [k]"
  using assms
proof (induction zs)
  case Nil
  then show ?case by simp
next
  case (Cons z zs)
  show ?case
  proof (cases "k = z")
    case True
    have "filter (\<lambda>x. f z = f x) zs = []"
      using Cons.prems(1) by (auto simp: filter_empty_conv)
    then show ?thesis using True by simp
  next
    case False
    then have "k \<in> set zs" using Cons.prems by simp
    moreover have "f k \<noteq> f z"
    proof
      assume "f k = f z"
      then have "f z \<in> f ` set zs" using calculation by (metis imageI)
      then show False using Cons.prems(1) by simp
    qed
    ultimately show ?thesis using Cons by simp
  qed
qed

lemma sort_key_perm_distinct:
  assumes "mset xs = mset ys" "sorted (map f ys)" "distinct (map f ys)"
  shows "sort_key f xs = ys"
proof (rule properties_for_sort_key)
  show "mset ys = mset xs" using assms by simp
  show "sorted (map f ys)" by fact
  fix k assume k: "k \<in> set ys"
  have dx: "distinct (map f xs)"
    using assms(1,3) by (metis distinct_map mset_eq_setD distinct_count_atmost_1)
  have kx: "k \<in> set xs" using k assms(1) by (metis mset_eq_setD)
  show "filter (\<lambda>x. f k = f x) ys = filter (\<lambda>x. f k = f x) xs"
    by (simp add: filter_key_single[OF assms(3) k] filter_key_single[OF dx kx])
qed

lemma spark_row_date [simp]: "date_key (spark_row cs d r) = Some d"
  by (simp add: spark_row_def)

lemma spark_row_tmp:
  "''tmp_lag_1'' \<notin> set cs \<Longrightarrow> spark_row cs d r ''tmp_lag_1'' = None"
  by (auto simp: spark_row_def map_of_eq_None_iff dest: set_zip_leftD)

lemma spark_row_cell:
  assumes "distinct cs" "''date_index'' \<notin> set cs" "length r = length cs" "j < length cs"
  shows "sget (spark_row cs d r) (cs ! j) = r ! j"
proof -
  have "map_of (zip cs r) (cs ! j) = Some (r ! j)"
    using assms by (simp add: map_of_zip_nth)
  moreover have "cs ! j \<noteq> ''date_index''" using assms by (metis nth_mem)
  ultimately show ?thesis by (simp add: spark_row_def sget_def)
qed

lemma sorted_map_Some:
  fixes ds :: "real list"
  shows "sorted_wrt (<) ds \<Longrightarrow> sorted (map Some ds) \<and> distinct (map Some ds)"
  by (induction ds) (auto simp: less_imp_le)

lemma spark_step_order: "spark_step lg (order_by_date s) c = spark_step lg s c"
proof -
  have "sort_key date_key (sort_key date_key (srows s)) = sort_key date_key (srows s)"
    by (rule sort_key_id_if_sorted) simp
  then have "order_by_date (order_by_date s) = order_by_date s"
    by (simp add: order_by_date_def)
  then show ?thesis by (simp add: spark_step_def)
qed

lemma spark_fold_order:
  "cs \<noteq> [] \<Longrightarrow> foldl (spark_step lg) (order_by_date s) cs = foldl (spark_step lg) s cs"
  by (cases cs) (simp_all add: spark_step_order)

lemma spark_cell_pos:
  assumes "0 < p" "0 < q"
  shows "spark_cell lg (Some p) (Some q) = Some (if lg then ln (p / q) else p / q - 1)"
proof -
  have "(p - q) / q = p / q - 1" using assms by (simp add: field_simps)
  moreover have "0 < p / q" using assms by simp
  ultimately show ?thesis
    using assms by (simp add: spark_cell_def spark_ret_def fdiv_def log1p_cell_def flog_def)
qed

lemma spark_cell_first: "spark_cell lg c None = None"
  by (cases c) (simp_all add: spark_cell_def spark_ret_def log1p_cell_def)

text \<open>
  C6. For a price matrix with ascending dates, held both as a pandas table and as a Spark
  table with its \<^verbatim>\<open>date_index\<close> column (records and columns in any order), the two paths
  of \<open>returns_from_prices\<close> give the same return for every asset at every date that has a
  previous date, under both conventions. The Spark result keeps the first date, with a
  null in every asset column; the pandas result has no row for it.
\<close>

theorem distributed_equivalence:
  assumes pm: "price_matrix df" and dates: "sorted_wrt (<) (index df)"
    and labels: "asset_labels (columns df)" and same: "same_data df sdf"
  shows "let S = returns_from_prices_spark sdf lg; R = returns_from_prices_pd df lg in
           returns_from_prices (Spark sdf) lg True = Inr (Spark S) \<and>
           returns_from_prices (Pandas df) lg False = Inr (Pandas R) \<and>
           scolumns S = scolumns sdf \<and>
           length (srows S) = length (rows df) \<and>
           length (rows R) = length (rows df) - 1 \<and>
           index R = tl (index df) \<and>
           (\<forall>t < length (rows df).
              date_key (srows S ! t) = Some (index df ! t) \<and>
              (\<forall>j < length (columns df).
                 sget (srows S ! t) (columns df ! j) =
                   (if t = 0 then None else rows R ! (t - 1) ! j)))"
proof -
  let ?cols = "columns df"
  let ?n = "length ?cols"
  let ?B = "map2 (spark_row ?cols) (index df) (rows df)"
  let ?cs = "remove1 ''date_index'' (scolumns sdf)"
  let ?s0 = "order_by_date sdf"
  have lab: "distinct ?cols" "''date_index'' \<notin> set ?cols" "''tmp_lag_1'' \<notin> set ?cols"
    using labels by (auto simp: asset_labels_def)
  have sd: "distinct (scolumns sdf)" "set (scolumns sdf) = insert ''date_index'' (set ?cols)"
    "mset (srows sdf) = mset ?B"
    using same by (auto simp: same_data_def)
  have len: "length (index df) = length (rows df)" using pm by (simp add: price_matrix_def)
  have keysB: "map date_key ?B = map Some (index df)"
    using len by (intro nth_equalityI) simp_all
  have srt: "sorted (map date_key ?B)" "distinct (map date_key ?B)"
    unfolding keysB using sorted_map_Some[OF dates] by simp_all
  have s0: "srows ?s0 = ?B" "scolumns ?s0 = scolumns sdf"
    using sort_key_perm_distinct[OF sd(3) srt] by (simp_all add: order_by_date_def)
  have cs: "distinct ?cs" "set ?cs = set ?cols" "?cs \<noteq> []"
  proof -
    show "distinct ?cs" using sd(1) by simp
    show c2: "set ?cs = set ?cols" using sd lab(2) by (simp add: set_remove1_eq)
    have "?cols \<noteq> []" using pm by (simp add: price_matrix_def)
    then show "?cs \<noteq> []" using c2 by (metis set_empty)
  qed
  have ord: "ordered_rows ?s0"
    unfolding ordered_rows_def s0 using srt(1) sd(2) lab(3) len
    by (auto simp: in_set_zip spark_row_tmp)
  have fold: "returns_from_prices_spark sdf lg = foldl (spark_step lg) ?s0 ?cs"
    by (simp add: returns_from_prices_spark_def spark_fold_order[OF cs(3)])
  have sub: "set ?cs \<subseteq> set (scolumns ?s0)" and nd: "''date_index'' \<notin> set ?cs"
    and nt: "''tmp_lag_1'' \<notin> set ?cs"
    using cs(2) sd(2) lab s0(2) by auto
  let ?S = "returns_from_prices_spark sdf lg"
  note F0 = spark_fold[OF ord cs(1) sub nd nt, of lg, unfolded s0, folded fold]
  have F1: "scolumns ?S = scolumns sdf" using F0 by (rule conjunct1)
  have F2: "length (srows ?S) = length ?B" using F0 by (rule conjunct2[THEN conjunct1])
  have F3: "map date_key (srows ?S) = map date_key ?B"
    using F0 by (rule conjunct2[THEN conjunct2, THEN conjunct1])
  have F4: "sget (srows ?S ! t) c = spark_cell lg (sget (?B ! t) c) (prev_cell ?B t c)"
    if "t < length ?B" "c \<in> set ?cols" for t c
    using F0[THEN conjunct2, THEN conjunct2, THEN conjunct2, rule_format, OF that(1), of c] that(2) cs(2)
    by simp
  let ?R = "returns_from_prices_pd df lg"
  have lenB: "length ?B = length (rows df)" using len by simp
  have Bcell: "sget (?B ! t) (?cols ! j) = rows df ! t ! j \<and>
               (\<exists>p. rows df ! t ! j = Some p \<and> 0 < p)"
    if "t < length (rows df)" "j < ?n" for t j
  proof -
    have pr: "pos_row ?n (rows df ! t)" using price_matrix_rows[OF pm] that(1) by simp
    then have "length (rows df ! t) = ?n" by (simp add: pos_row_def)
    then have "sget (?B ! t) (?cols ! j) = rows df ! t ! j"
      using that len lab by (simp add: spark_row_cell)
    then show ?thesis using pos_row_nth[OF pr that(2)] by simp
  qed
  have date: "date_key (srows ?S ! t) = Some (index df ! t)" if t: "t < length (rows df)" for t
  proof -
    have "map date_key (srows ?S) ! t = map Some (index df) ! t"
      by (simp only: F3 keysB)
    then show ?thesis using t len F2 lenB by simp
  qed
  have cell: "sget (srows ?S ! t) (?cols ! j) = (if t = 0 then None else rows ?R ! (t - 1) ! j)"
    if t: "t < length (rows df)" and j: "j < ?n" for t j
  proof -
    have c: "?cols ! j \<in> set ?cols" using j by simp
    obtain p where p: "sget (?B ! t) (?cols ! j) = Some p" "rows df ! t ! j = Some p" "0 < p"
      using Bcell[OF t j] by auto
    have S: "sget (srows ?S ! t) (?cols ! j) = spark_cell lg (Some p) (prev_cell ?B t (?cols ! j))"
      using F4[of t, OF _ c] t lenB p(1) by simp
    show ?thesis
    proof (cases "t = 0")
      case True
      then show ?thesis using S by (simp add: prev_cell_def spark_cell_first)
    next
      case False
      then have t1: "t - 1 < length (rows df)" and st: "Suc (t - 1) = t" using t by simp_all
      obtain q where q: "sget (?B ! (t - 1)) (?cols ! j) = Some q" "rows df ! (t - 1) ! j = Some q" "0 < q"
        using Bcell[OF t1 j] by auto
      have "rows ?R ! (t - 1) ! j =
          Some (if lg then ln (price df (Suc (t - 1)) j / price df (t - 1) j)
                else price df (Suc (t - 1)) j / price df (t - 1) j - 1)"
        by (rule returns_pd_cell(1)[OF pm _ j]) (use st t in simp)
      moreover have "price df t j = p" "price df (t - 1) j = q"
        using p(2) q(2) by (simp_all add: price_def)
      ultimately have "rows ?R ! (t - 1) ! j = Some (if lg then ln (p / q) else p / q - 1)"
        unfolding st by (simp only:)
      moreover have "sget (srows ?S ! t) (?cols ! j) = Some (if lg then ln (p / q) else p / q - 1)"
        using S False q(1) spark_cell_pos[OF p(3) q(3), of lg] by (simp add: prev_cell_def)
      ultimately show ?thesis using False by simp
    qed
  qed
  have d1: "returns_from_prices (Spark sdf) lg True = Inr (Spark ?S)"
    using sd(2) by (simp add: returns_from_prices_def)
  have d2: "returns_from_prices (Pandas df) lg False = Inr (Pandas ?R)"
    by (simp add: returns_from_prices_def)
  show ?thesis
    unfolding Let_def
    using d1 d2 F1 F2 lenB returns_pd_shape(2,3)[OF pm, of lg] date cell
    by simp
qed

theorem distributed_equivalence_witness:
  "price_matrix ex_prices \<and> sorted_wrt (<) (index ex_prices) \<and>
   asset_labels (columns ex_prices) \<and> same_data ex_prices ex_spark \<and>
   sget (srows (returns_from_prices_spark ex_spark False) ! 1) ''A'' = Some (1 / 10) \<and>
   rows (returns_from_prices_pd ex_prices False) ! 0 ! 0 = Some (1 / 10) \<and>
   sget (srows (returns_from_prices_spark ex_spark True) ! 2) ''A'' =
     rows (returns_from_prices_pd ex_prices True) ! 1 ! 0"
proof -
  have pm: "price_matrix ex_prices" by (simp add: price_matrix_def pos_row_def ex_prices_def)
  have srt: "sorted_wrt (<) (index ex_prices)" by (simp add: ex_prices_def)
  have lab: "asset_labels (columns ex_prices)" by (simp add: asset_labels_def ex_prices_def)
  have same: "same_data ex_prices ex_spark"
    by (simp add: same_data_def ex_prices_def ex_spark_def add_mset_commute)
  have r: "rows (returns_from_prices_pd ex_prices False) ! 0 ! 0 = Some (1 / 10)"
    by (simp add: ex_returns)
  show ?thesis
    using distributed_equivalence[OF pm srt lab same, of False]
          distributed_equivalence[OF pm srt lab same, of True] pm srt lab same r
    by (simp add: Let_def ex_prices_def)
qed

subsection \<open>Misuse of distributed mode\<close>

text \<open>
  C7 (as the code has it). With distributed mode requested, \<open>returns_from_prices\<close> raises
  a \<^verbatim>\<open>RuntimeError\<close> exactly in the two misuse cases, a pandas table or a Spark table
  without \<^verbatim>\<open>date_index\<close>; it returns no result then, and returns one otherwise.
\<close>

theorem distributed_misuse_errors:
  "raised (returns_from_prices prices lg True) =
     (if misuse prices then Some ''RuntimeError'' else None) \<and>
   (isl (returns_from_prices prices lg True) \<longleftrightarrow> misuse prices)"
  by (cases prices) (simp_all add: returns_from_prices_def misuse_def)

theorem distributed_misuse_errors_witness:
  "misuse (Pandas ex_prices) \<and> misuse (Spark (ex_spark\<lparr>scolumns := [''A'']\<rparr>)) \<and>
   \<not> misuse (Spark ex_spark) \<and>
   raised (returns_from_prices (Pandas ex_prices) False True) = Some ''RuntimeError'' \<and>
   raised (returns_from_prices (Spark (ex_spark\<lparr>scolumns := [''A'']\<rparr>)) False True) =
     Some ''RuntimeError'' \<and>
   raised (returns_from_prices (Spark ex_spark) False True) = None"
  using distributed_misuse_errors[of "Pandas ex_prices" False]
    distributed_misuse_errors[of "Spark (ex_spark\<lparr>scolumns := [''A'']\<rparr>)" False]
    distributed_misuse_errors[of "Spark ex_spark" False]
  by (simp add: misuse_def ex_spark_def)

text \<open>
  C7 as stated names the exception \<^verbatim>\<open>InputError\<close>; in both misuse cases the class raised
  is \<^verbatim>\<open>RuntimeError\<close>.
\<close>

theorem distributed_misuse_not_InputError:
  "raised (returns_from_prices (Pandas ex_prices) False True) = Some ''RuntimeError'' \<and>
   raised (returns_from_prices (Pandas ex_prices) False True) \<noteq> Some ''InputError'' \<and>
   raised (returns_from_prices (Spark (ex_spark\<lparr>scolumns := [''A'']\<rparr>)) False True) =
     Some ''RuntimeError'' \<and>
   raised (returns_from_prices (Spark (ex_spark\<lparr>scolumns := [''A'']\<rparr>)) False True) \<noteq>
     Some ''InputError''"
  by (simp add: returns_from_prices_def ex_spark_def)

subsection \<open>The historical mean\<close>

lemma reduce_cols_nth:
  "j < length (columns df) \<Longrightarrow> reduce_cols f df ! j = (columns df ! j, f (col_values df j))"
  by (simp add: reduce_cols_def)

lemma length_reduce_cols [simp]: "length (reduce_cols f df) = length (columns df)"
  by (simp add: reduce_cols_def)

lemma compound_col_pos:
  assumes "observed xs \<noteq> []" "0 < prod_list (map (\<lambda>r. 1 + r) (observed xs))"
  shows "compound_col f xs =
           Some (prod_list (map (\<lambda>r. 1 + r) (observed xs)) powr
                   (of_int f / of_nat (length (observed xs))) - 1)"
  using assms by (simp add: compound_col_def Let_def fpow_def)

lemma arith_col_obs:
  assumes "observed xs \<noteq> []"
  shows "arith_col f xs = Some (sum_list (observed xs) / of_nat (length (observed xs)) * of_int f)"
  using assms by (simp add: arith_col_def mean_col_def Let_def)

lemma ex_mean_compound: "mean_historical_return ex_prices False True 2 = [(''A'', Some (21 / 100))]"
  by (simp add: mean_historical_return_def ex_returns reduce_cols_def col_values_def
      compound_col_def observed_def List.map_filter_simps fpow_def)

lemma ex_mean_arith: "mean_historical_return ex_prices False False 2 = [(''A'', Some (1 / 5))]"
  by (simp add: mean_historical_return_def ex_returns reduce_cols_def col_values_def
      arith_col_def mean_col_def observed_def List.map_filter_simps)

text \<open>
  C2. On a returns table, \<open>mean_historical_return\<close> gives one value per column, under
  the column's label: with compounding the product of \<open>1 + r\<close> over the observed returns
  to the power \<open>frequency / count\<close>, minus one (where that product is positive), and
  without compounding the mean of the observed returns times \<open>frequency\<close>. On prices it
  is the same estimate of their returns. For the prices 100, 110, 121 and frequency 2 it
  is 0.21 with compounding and 0.20 without.
\<close>

theorem mean_historical_return_formula:
  "length (mean_historical_return R True c f) = length (columns R) \<and>
   (\<forall>j < length (columns R).
      fst (mean_historical_return R True c f ! j) = columns R ! j \<and>
      (let obs = observed (col_values R j) in
         obs \<noteq> [] \<longrightarrow>
           (c \<and> 0 < prod_list (map (\<lambda>r. 1 + r) obs) \<longrightarrow>
              snd (mean_historical_return R True c f ! j) =
                Some (prod_list (map (\<lambda>r. 1 + r) obs) powr (of_int f / of_nat (length obs)) - 1)) \<and>
           (\<not> c \<longrightarrow>
              snd (mean_historical_return R True c f ! j) =
                Some (sum_list obs / of_nat (length obs) * of_int f)))) \<and>
   mean_historical_return P False c f =
     mean_historical_return (returns_from_prices_pd P False) True c f \<and>
   mean_historical_return ex_prices False True 2 = [(''A'', Some (21 / 100))] \<and>
   mean_historical_return ex_prices False False 2 = [(''A'', Some (20 / 100))]"
proof -
  have "length (mean_historical_return R True c f) = length (columns R)"
    by (simp add: mean_historical_return_def)
  moreover have "fst (mean_historical_return R True c f ! j) = columns R ! j \<and>
      (let obs = observed (col_values R j) in
         obs \<noteq> [] \<longrightarrow>
           (c \<and> 0 < prod_list (map (\<lambda>r. 1 + r) obs) \<longrightarrow>
              snd (mean_historical_return R True c f ! j) =
                Some (prod_list (map (\<lambda>r. 1 + r) obs) powr (of_int f / of_nat (length obs)) - 1)) \<and>
           (\<not> c \<longrightarrow>
              snd (mean_historical_return R True c f ! j) =
                Some (sum_list obs / of_nat (length obs) * of_int f)))"
    if "j < length (columns R)" for j
    using that
    by (simp add: mean_historical_return_def reduce_cols_nth Let_def compound_col_pos arith_col_obs)
  moreover have "mean_historical_return P False c f =
     mean_historical_return (returns_from_prices_pd P False) True c f"
    by (simp add: mean_historical_return_def)
  ultimately show ?thesis
    using ex_mean_compound ex_mean_arith by simp
qed

theorem mean_historical_return_formula_witness:
  "1 < length (columns ex_returns_nan) \<and>
   observed (col_values ex_returns_nan 0) = [1 / 10, 1 / 10] \<and>
   mean_historical_return ex_returns_nan True True 2 ! 0 = (''A'', Some (21 / 100)) \<and>
   mean_historical_return ex_returns_nan True False 2 ! 1 = (''B'', Some 0)"
proof -
  have o: "observed (col_values ex_returns_nan 0) = [1 / 10, 1 / 10]"
    "observed (col_values ex_returns_nan 1) = [1 / 2, - 1 / 2]"
    by (simp_all add: ex_returns_nan_def col_values_def observed_def List.map_filter_simps)
  have l: "0 < length (columns ex_returns_nan)" "1 < length (columns ex_returns_nan)"
    by (simp_all add: ex_returns_nan_def)
  have c: "columns ex_returns_nan ! 0 = ''A''" "columns ex_returns_nan ! Suc 0 = ''B''"
    by (simp_all add: ex_returns_nan_def)
  show ?thesis
    using mean_historical_return_formula[of ex_returns_nan True 2 ex_prices, THEN conjunct2, THEN conjunct1, rule_format, OF l(1)]
      mean_historical_return_formula[of ex_returns_nan False 2 ex_prices, THEN conjunct2, THEN conjunct1, rule_format, OF l(2)]
      l o
    by (simp add: Let_def c prod_eq_iff)
qed

subsection \<open>The exponentially weighted mean\<close>

lemma ew_num_snoc [simp]: "ew_num \<beta> (ys @ [x]) = \<beta> * ew_num \<beta> ys + x"
  by (simp add: ew_num_def)

lemma ew_den_snoc [simp]: "ew_den \<beta> (ys @ [x]) = \<beta> * ew_den \<beta> ys + 1"
  by (simp add: ew_den_def)

lemma ew_num_Nil [simp]: "ew_num \<beta> [] = 0" by (simp add: ew_num_def)
lemma ew_den_Nil [simp]: "ew_den \<beta> [] = 0" by (simp add: ew_den_def)

lemma ew_den_nonneg: "0 \<le> \<beta> \<Longrightarrow> 0 \<le> ew_den \<beta> ys"
  by (induction ys rule: rev_induct) simp_all

lemma ew_den_pos: "0 \<le> \<beta> \<Longrightarrow> ys \<noteq> [] \<Longrightarrow> 1 \<le> ew_den \<beta> ys"
  by (cases ys rule: rev_cases) (simp_all add: ew_den_nonneg)

lemma ew_num_sum: "ew_num \<beta> ys = (\<Sum>i<length ys. \<beta> ^ i * ys ! (length ys - 1 - i))"
proof (induction ys rule: rev_induct)
  case Nil
  then show ?case by simp
next
  case (snoc x ys)
  have "(\<Sum>i<length (ys @ [x]). \<beta> ^ i * (ys @ [x]) ! (length (ys @ [x]) - 1 - i)) =
        (\<Sum>i<Suc (length ys). \<beta> ^ i * (ys @ [x]) ! (length ys - i))"
    by simp
  also have "\<dots> = x + (\<Sum>i<length ys. \<beta> ^ Suc i * (ys @ [x]) ! (length ys - Suc i))"
    by (subst sum.lessThan_Suc_shift) simp
  also have "(\<Sum>i<length ys. \<beta> ^ Suc i * (ys @ [x]) ! (length ys - Suc i)) =
             (\<Sum>i<length ys. \<beta> * (\<beta> ^ i * ys ! (length ys - 1 - i)))"
  proof (rule sum.cong)
    fix i assume "i \<in> {..<length ys}"
    then have "length ys - Suc i < length ys" by auto
    then show "\<beta> ^ Suc i * (ys @ [x]) ! (length ys - Suc i) =
               \<beta> * (\<beta> ^ i * ys ! (length ys - 1 - i))"
      by (simp add: nth_append)
  qed simp
  also have "\<dots> = \<beta> * ew_num \<beta> ys"
    by (simp add: snoc.IH sum_distrib_left)
  finally show ?case by simp
qed

lemma ew_den_sum: "ew_den \<beta> ys = (\<Sum>i<length ys. \<beta> ^ i)"
proof (induction ys rule: rev_induct)
  case Nil
  then show ?case by simp
next
  case (snoc x ys)
  have "(\<Sum>i<Suc (length ys). \<beta> ^ i) = 1 + (\<Sum>i<length ys. \<beta> * \<beta> ^ i)"
    by (subst sum.lessThan_Suc_shift) simp
  then have "(\<Sum>i<length (ys @ [x]). \<beta> ^ i) = 1 + (\<Sum>i<length ys. \<beta> * \<beta> ^ i)"
    by (simp del: sum.lessThan_Suc)
  then show ?case by (simp add: snoc.IH sum_distrib_left)
qed

lemma ew_avg_fold: "ew_avg \<alpha> xs = ew_num (1 - \<alpha>) xs / ew_den (1 - \<alpha>) xs"
  by (simp add: ew_avg_def ew_num_sum ew_den_sum)

lemma ewm_step:
  fixes D N z \<beta> :: real
  assumes "1 \<le> D" "0 \<le> \<beta>"
  shows "(if N / D \<noteq> z then (D * \<beta> * (N / D) + z) / (D * \<beta> + 1) else N / D) =
         (\<beta> * N + z) / (\<beta> * D + 1)"
proof -
  have "0 \<le> \<beta> * D" using assms by simp
  then have D: "D \<noteq> 0" "\<beta> * D + 1 \<noteq> 0"
    using assms by linarith+
  have a: "(D * \<beta> * (N / D) + z) / (D * \<beta> + 1) = (\<beta> * N + z) / (\<beta> * D + 1)"
    using D by (simp add: mult.commute)
  have "\<beta> * N + N / D = (N / D) * (\<beta> * D + 1)"
    using D(1) by (simp add: field_simps)
  then have b: "N / D = (\<beta> * N + N / D) / (\<beta> * D + 1)"
    using D(2) by simp
  show ?thesis using a b by auto
qed

lemma ewm_scan_last:
  assumes "0 \<le> \<beta>" "\<beta> = 1 - \<alpha>" "ys \<noteq> []" "zs \<noteq> []"
  shows "last (ewm_scan \<alpha> (Some (ew_num \<beta> ys / ew_den \<beta> ys)) (ew_den \<beta> ys) (map Some zs)) =
         Some (ew_num \<beta> (ys @ zs) / ew_den \<beta> (ys @ zs))"
  using assms(3,4)
proof (induction zs arbitrary: ys)
  case Nil
  then show ?case by simp
next
  case (Cons z zs)
  let ?N = "ew_num \<beta> ys" and ?D = "ew_den \<beta> ys"
  have D: "1 \<le> ?D" using ew_den_pos[OF assms(1) Cons.prems(1)] .
  have w: "(if ?N / ?D \<noteq> z then (?D * \<beta> * (?N / ?D) + z) / (?D * \<beta> + 1) else ?N / ?D) =
           ew_num \<beta> (ys @ [z]) / ew_den \<beta> (ys @ [z])"
    using ewm_step[OF D assms(1)] by simp
  have d: "?D * \<beta> + 1 = ew_den \<beta> (ys @ [z])" by (simp add: mult.commute)
  have step: "ewm_scan \<alpha> (Some (?N / ?D)) ?D (map Some (z # zs)) =
      Some (ew_num \<beta> (ys @ [z]) / ew_den \<beta> (ys @ [z])) #
      ewm_scan \<alpha> (Some (ew_num \<beta> (ys @ [z]) / ew_den \<beta> (ys @ [z]))) (ew_den \<beta> (ys @ [z])) (map Some zs)"
    using w d by (simp add: Let_def assms(2)[symmetric] del: ew_num_snoc ew_den_snoc)
  show ?case
  proof (cases "zs = []")
    case True
    then show ?thesis unfolding step by simp
  next
    case False
    have "last (ewm_scan \<alpha> (Some (ew_num \<beta> (ys @ [z]) / ew_den \<beta> (ys @ [z]))) (ew_den \<beta> (ys @ [z])) (map Some zs))
        = Some (ew_num \<beta> ((ys @ [z]) @ zs) / ew_den \<beta> ((ys @ [z]) @ zs))"
      by (rule Cons.IH) (use False in simp_all)
    moreover have "ewm_scan \<alpha> (Some (ew_num \<beta> (ys @ [z]) / ew_den \<beta> (ys @ [z]))) (ew_den \<beta> (ys @ [z])) (map Some zs) \<noteq> []"
      using False by (cases zs) (simp_all add: Let_def)
    ultimately show ?thesis unfolding step by simp
  qed
qed

lemma ewm_mean_last:
  assumes "0 \<le> 1 - \<alpha>" "xs \<noteq> []"
  shows "last (ewm_mean \<alpha> (map Some xs)) = Some (ew_avg \<alpha> xs)"
proof -
  obtain x xs' where xs: "xs = x # xs'" using assms(2) by (cases xs) auto
  have one: "ew_num (1 - \<alpha>) [x] = x" "ew_den (1 - \<alpha>) [x] = 1"
    by (simp_all add: ew_num_def ew_den_def)
  show ?thesis
  proof (cases "xs' = []")
    case True
    then show ?thesis by (simp add: xs ewm_mean_def ew_avg_fold one)
  next
    case False
    have "last (ewm_scan \<alpha> (Some (ew_num (1 - \<alpha>) [x] / ew_den (1 - \<alpha>) [x])) (ew_den (1 - \<alpha>) [x]) (map Some xs')) =
         Some (ew_num (1 - \<alpha>) ([x] @ xs') / ew_den (1 - \<alpha>) ([x] @ xs'))"
      by (rule ewm_scan_last) (use assms False in simp_all)
    moreover have "ewm_scan \<alpha> (Some x) 1 (map Some xs') \<noteq> []"
      using False by (cases xs') (simp_all add: Let_def)
    ultimately show ?thesis
      by (simp add: xs ewm_mean_def ew_avg_fold one)
  qed
qed

lemma fpow_int:
  assumes "x \<noteq> 0 \<or> 0 \<le> f"
  shows "fpow x (of_int f) = Some (x powi f)"
proof -
  consider "0 < x" | "x = 0" | "x < 0" by linarith
  then show ?thesis
  proof cases
    case 1
    then show ?thesis by (simp add: fpow_def powr_real_of_int' power_int_def)
  next
    case 2
    then show ?thesis using assms by (cases "f = 0") (simp_all add: fpow_def power_int_def)
  next
    case 3
    then show ?thesis by (simp add: fpow_def)
  qed
qed

lemma compound_col_single: "compound_col f [Some v] = ema_compound f (Some v)"
  by (simp add: compound_col_def ema_compound_def observed_def List.map_filter_simps)

lemma arith_col_single: "arith_col f [Some v] = ema_arith f (Some v)"
  by (simp add: arith_col_def ema_arith_def mean_col_def observed_def List.map_filter_simps)

text \<open>
  C8. For a span of at least 1 and a returns table with rows, \<open>ema_historical_return\<close>
  takes, for a column without missing values, the last value of the exponentially
  weighted moving average with \<open>\<alpha> = 2 / (span + 1)\<close>, which is the weighted average
  \<open>ew_avg\<close> of the whole column, and annualises this single value \<open>v\<close> as the historical
  mean estimator annualises a column holding only \<open>v\<close>: \<open>(1 + v) ^ frequency - 1\<close> with
  compounding and \<open>v * frequency\<close> without.
\<close>

theorem ema_historical_return_formula:
  assumes spn: "1 \<le> spn" and rws: "rows R \<noteq> []" and j: "j < length (columns R)"
    and col: "col_values R j = map Some xs"
  shows "let \<alpha> = 2 / (of_int spn + 1); v = ew_avg \<alpha> xs in
           last (ewm_mean \<alpha> (col_values R j)) = Some v \<and>
           (case ema_historical_return R True c spn f of
              Inl e \<Rightarrow> False
            | Inr res \<Rightarrow>
                length res = length (columns R) \<and>
                fst (res ! j) = columns R ! j \<and>
                snd (res ! j) = (if c then compound_col f [Some v] else arith_col f [Some v]) \<and>
                (c \<and> (1 + v \<noteq> 0 \<or> 0 \<le> f) \<longrightarrow> snd (res ! j) = Some ((1 + v) powi f - 1)) \<and>
                (\<not> c \<longrightarrow> snd (res ! j) = Some (v * of_int f)))"
proof -
  let ?a = "2 / (of_int spn + 1) :: real"
  have a: "0 \<le> 1 - ?a" using spn by simp
  have ne: "xs \<noteq> []" using col rws by (auto simp: col_values_def)
  have v: "last (ewm_mean ?a (col_values R j)) = Some (ew_avg ?a xs)"
    unfolding col by (rule ewm_mean_last[OF a ne])
  have c1: "ema_compound f (Some (ew_avg ?a xs)) = Some ((1 + ew_avg ?a xs) powi f - 1)"
    if "1 + ew_avg ?a xs \<noteq> 0 \<or> 0 \<le> f"
    using fpow_int[OF that] by (simp add: ema_compound_def)
  have c2: "ema_arith f (Some (ew_avg ?a xs)) = Some (ew_avg ?a xs * of_int f)"
    by (simp add: ema_arith_def)
  show ?thesis
    unfolding Let_def using spn rws j v c1 c2
    by (simp add: ema_historical_return_def reduce_cols_def compound_col_single arith_col_single)
qed

theorem ema_historical_return_formula_witness:
  "(1::int) \<le> 3 \<and> rows ex_two_returns \<noteq> [] \<and> 0 < length (columns ex_two_returns) \<and>
   col_values ex_two_returns 0 = map Some [1 / 10, 3 / 10] \<and>
   ew_avg (1 / 2) [1 / 10, 3 / 10] = 7 / 30 \<and>
   ema_historical_return ex_two_returns True True 3 2 = Inr [(''A'', Some (469 / 900))] \<and>
   ema_historical_return ex_two_returns True False 3 2 = Inr [(''A'', Some (7 / 15))]"
proof -
  have h: "(1::int) \<le> 3" "rows ex_two_returns \<noteq> []" "0 < length (columns ex_two_returns)"
    "col_values ex_two_returns 0 = map Some [1 / 10, 3 / 10]"
    by (simp_all add: ex_two_returns_def col_values_def)
  have v: "ew_avg (1 / 2) [1 / 10, 3 / 10] = 7 / 30"
    by (simp add: ew_avg_def lessThan_Suc numeral_2_eq_2)
  have l: "length (columns ex_two_returns) = 1" "columns ex_two_returns ! 0 = ''A''"
    by (simp_all add: ex_two_returns_def)
  have eq: "res = [(''A'', y)]" if "length res = 1" "fst (res ! 0) = ''A''" "snd (res ! 0) = y"
    for res :: series and y
    using that by (cases res) (auto simp: prod_eq_iff)
  have p: "((1 + 7 / 30)\<^sup>2 :: real) - 1 = 469 / 900"
    by (simp add: power2_eq_square)
  show ?thesis
    using ema_historical_return_formula[OF h, of True 2] ema_historical_return_formula[OF h, of False 2] h
    by (auto simp: Let_def v l split: sum.splits intro!: eq) (simp_all add: p[symmetric])
qed

subsection \<open>The dispatcher\<close>

lemma raised_Inl [simp]: "raised (Inl e) = Some (exn_class e)"
  by (cases e) simp

lemma mean_call_raised [simp]:
  "raised (fst (mean_historical_return_call h p kw)) \<noteq> Some ''NotImplementedError''"
  by (simp add: mean_historical_return_call_def unexpected_keyword_def)

lemma ema_raised [simp]:
  "raised (ema_historical_return R rd c s f) \<noteq> Some ''NotImplementedError''"
  by (simp add: ema_historical_return_def Let_def)

lemma ema_call_raised [simp]:
  "raised (fst (ema_historical_return_call h p kw)) \<noteq> Some ''NotImplementedError''"
  by (simp add: ema_historical_return_call_def unexpected_keyword_def)

lemma join_left_raised: "join_left l r = Inl e \<Longrightarrow> exn_class e = ''ValueError''"
  by (auto simp: join_left_def Let_def split: if_splits)

lemma capm_market_raised [simp]:
  "raised (fst (capm_market h r mr)) \<noteq> Some ''NotImplementedError''"
proof (cases mr)
  case None
  then show ?thesis by (simp add: capm_market_def)
next
  case (Some m)
  let ?h2 = "store m ((objs h m)\<lparr>columns := [''mkt'']\<rparr>) h"
  show ?thesis
  proof (cases "join_left (objs ?h2 r) (objs ?h2 m)")
    case (Inl e)
    then show ?thesis
      using join_left_raised[OF Inl] by (simp add: capm_market_def Some Let_def)
  next
    case (Inr joined)
    then show ?thesis by (simp add: capm_market_def Some Let_def split: prod.splits)
  qed
qed

lemma capm_inputs_raised [simp]:
  "raised (fst (capm_inputs h p mp rd)) \<noteq> Some ''NotImplementedError''"
  by (simp add: capm_inputs_def split: prod.splits)

lemma capm_raised [simp]:
  "raised (fst (capm_return h p mp rd rf c f)) \<noteq> Some ''NotImplementedError''"
proof (cases "capm_inputs h p mp rd")
  case (Pair r h')
  show ?thesis
    using capm_inputs_raised[of h p mp rd]
    by (cases r) (simp_all add: capm_return_def Pair)
qed

lemma capm_call_raised [simp]:
  "raised (fst (capm_return_call h p kw)) \<noteq> Some ''NotImplementedError''"
  by (simp add: capm_return_call_def unexpected_keyword_def)

text \<open>
  C9. \<open>return_model\<close> is the call of the estimator that the method names, with the same
  table and the same keyword arguments: a keyword given to \<open>return_model\<close> reaches the
  parameter of that name unchanged. For every other name, and only then, it raises a
  \<^verbatim>\<open>NotImplementedError\<close>, and the store is as before.
\<close>

theorem return_model_dispatch:
  "return_model h p ''mean_historical_return'' kw = mean_historical_return_call h p kw \<and>
   return_model h p ''ema_historical_return'' kw = ema_historical_return_call h p kw \<and>
   return_model h p ''capm_return'' kw = capm_return_call h p kw \<and>
   (raised (fst (return_model h p m kw)) = Some ''NotImplementedError'' \<longleftrightarrow> m \<notin> model_names) \<and>
   (m \<notin> model_names \<longrightarrow>
      return_model h p m kw =
        (Inl (Raise ''NotImplementedError'' (''Return model '' @ m @ '' not implemented'')), h)) \<and>
   return_model h p ''mean_historical_return''
       (no_kwargs\<lparr>kw_returns_data := Some rd, kw_compounding := Some c, kw_frequency := Some f\<rparr>) =
     (Inr (mean_historical_return (objs h p) rd c f), h) \<and>
   return_model h p ''ema_historical_return''
       (no_kwargs\<lparr>kw_returns_data := Some rd, kw_compounding := Some c, kw_span := Some s,
                  kw_frequency := Some f\<rparr>) =
     (ema_historical_return (objs h p) rd c s f, h) \<and>
   return_model h p ''capm_return''
       (no_kwargs\<lparr>kw_market_prices := Some mp, kw_returns_data := Some rd,
                  kw_risk_free_rate := Some rf, kw_compounding := Some c,
                  kw_frequency := Some f\<rparr>) =
     capm_return h p mp rd rf c f"
proof -
  have nie: "raised (fst (return_model h p m kw)) = Some ''NotImplementedError'' \<longleftrightarrow> m \<notin> model_names"
    by (simp add: return_model_def model_names_def)
  show ?thesis
    using nie
    by (simp add: return_model_def model_names_def no_kwargs_def mean_historical_return_call_def
        ema_historical_return_call_def capm_return_call_def)
qed

theorem return_model_dispatch_witness:
  "''james_stein_shrinkage'' \<notin> model_names \<and>
   return_model ex_heap 0 ''james_stein_shrinkage'' no_kwargs =
     (Inl (Raise ''NotImplementedError''
        ''Return model james_stein_shrinkage not implemented''), ex_heap) \<and>
   return_model ex_heap 0 ''mean_historical_return''
       (no_kwargs\<lparr>kw_returns_data := Some True, kw_compounding := Some False, kw_frequency := Some 2\<rparr>) =
     (Inr [(''A'', Some (2 / 5))], ex_heap)"
proof -
  have n: "''james_stein_shrinkage'' \<notin> model_names" by (simp add: model_names_def)
  have m: "mean_historical_return (objs ex_heap 0) True False 2 = [(''A'', Some (2 / 5))]"
    by (simp add: mean_historical_return_def ex_heap_def ex_two_returns_def reduce_cols_def
        col_values_def arith_col_def mean_col_def observed_def Let_def)
  show ?thesis
    using return_model_dispatch[where h = ex_heap and p = 0 and kw = no_kwargs
        and m = "''james_stein_shrinkage''" and rd = True and c = False and f = 2]
      n m
    by simp
qed

end
